theory Spec2Isabelle
  imports Main
begin

section \<open>Values and errors\<close>

text \<open>
  A cell of a pandas table as the notebook meets it after \<^verbatim>\<open>pd.read_csv\<close>: a Python
  string, a number, or the missing value, which pandas loads as the float NaN. Numbers
  are kept to the integers; a whole number of a floating-point column is the integer it
  equals. Equality of cells is the one \<^verbatim>\<open>isin\<close> and \<^verbatim>\<open>merge\<close> use: two missing values
  match each other, a string never matches a number.
  A text is a list of code points below 256, one \<^typ>\<open>char\<close> each.
\<close>

datatype cell = Str string | Num int | NaN

datatype error =
    KeyError string
  | TypeError
  | ValueError
  | ConnectionError
  | BadZipFile
  | FileExistsError
  | FileNotFoundError
  | NotADirectoryError
  | IsADirectoryError
  | PermissionError
  | EmptyDataError

section \<open>Tables\<close>

text \<open>
  A DataFrame: the column labels in order and the rows in order, every row a list of
  cells. The row index is not modelled: a row is known by its position, which is what
  \<^verbatim>\<open>reset_index(drop=True)\<close> leaves.
\<close>

record df =
  cols :: "string list"
  rows :: "cell list list"

fun index_of :: "'a \<Rightarrow> 'a list \<Rightarrow> nat" where
  "index_of c [] = 0"
| "index_of c (x # xs) = (if x = c then 0 else Suc (index_of c xs))"

text \<open>A row shorter than the header reads as missing there, as \<^verbatim>\<open>read_csv\<close> pads it.\<close>

definition cell_at :: "cell list \<Rightarrow> nat \<Rightarrow> cell" where
  "cell_at r i = (if i < length r then r ! i else NaN)"

text \<open>\<^verbatim>\<open>row[c]\<close> and \<^verbatim>\<open>df[c]\<close>: the cell, or the column, under a label.\<close>

definition getitem_row :: "df \<Rightarrow> cell list \<Rightarrow> string \<Rightarrow> error + cell" where
  "getitem_row d r c =
     (if c \<in> set (cols d) then Inr (cell_at r (index_of c (cols d))) else Inl (KeyError c))"

definition getitem :: "df \<Rightarrow> string \<Rightarrow> error + cell list" where
  "getitem d c =
     (if c \<in> set (cols d) then Inr (map (\<lambda>r. cell_at r (index_of c (cols d))) (rows d))
      else Inl (KeyError c))"

text \<open>\<^verbatim>\<open>df[[c1, ..., cn]]\<close>: the projection on the listed labels, in the listed order.\<close>

definition getitem_cols :: "df \<Rightarrow> string list \<Rightarrow> error + df" where
  "getitem_cols d names =
     (case find (\<lambda>n. n \<notin> set (cols d)) names of
        Some n \<Rightarrow> Inl (KeyError n)
      | None \<Rightarrow>
          Inr \<lparr>cols = names,
               rows = map (\<lambda>r. map (\<lambda>n. cell_at r (index_of n (cols d))) names) (rows d)\<rparr>)"

text \<open>\<^verbatim>\<open>series.isin(values)\<close> and \<^verbatim>\<open>df[mask]\<close>: the rows whose mask entry is true.\<close>

definition isin :: "cell list \<Rightarrow> cell list \<Rightarrow> bool list" where
  "isin xs vals = map (\<lambda>x. x \<in> set vals) xs"

definition getitem_mask :: "df \<Rightarrow> bool list \<Rightarrow> df" where
  "getitem_mask d keep = d\<lparr>rows := map fst (filter snd (zip (rows d) keep))\<rparr>"

text \<open>
  \<^verbatim>\<open>left.merge(right, on=key)\<close> with the defaults \<^verbatim>\<open>how='inner'\<close>, \<^verbatim>\<open>sort=False\<close>,
  \<^verbatim>\<open>suffixes=('_x', '_y')\<close>. Every left row is paired with the right rows of the same
  key, the right rows in their order; the key column is kept once, at its place on the
  left, and a label that both tables have besides the key gets a suffix on each side.

  Two things that decide the outcome of the call are not in a table as it is modelled
  here, and are given with the call.

  The first is the version of pandas, which the notebook does not pin. From pandas 2.2
  on the joined rows follow the rows of the left table (\<open>Left_rows\<close>). Before, they are
  grouped by key (\<open>Key_groups\<close>): the keys in the order of their first row on the left,
  and under one key its left rows in their order, each with its right rows. The two
  orders differ as soon as a key comes back on the left after another key.

  The second is the dtype of the two key columns. pandas compares them before it joins
  and raises ValueError when it finds a column of texts against a column of numbers. A
  table here holds its cells without the dtype of its columns, which is fixed when the
  file is loaded and survives a filter that removes the rows it was inferred from; so
  the verdict of that comparison is given, \<open>key_dtypes_agree\<close>.
\<close>

datatype row_order = Left_rows | Key_groups

record merge_call =
  inner_order :: row_order
  key_dtypes_agree :: bool

definition drop_at :: "nat \<Rightarrow> 'a list \<Rightarrow> 'a list" where
  "drop_at i xs = take i xs @ drop (Suc i) xs"

definition pad :: "nat \<Rightarrow> cell list \<Rightarrow> cell list" where
  "pad n r = map (cell_at r) [0 ..< n]"

text \<open>The values of a list in the order of their first occurrence.\<close>

definition first_seen :: "'a list \<Rightarrow> 'a list" where
  "first_seen xs = rev (remdups (rev xs))"

text \<open>
  The joined rows: \<open>kl\<close> and \<open>kr\<close> read the key of a left and of a right row, \<open>f\<close>
  builds the joined row of a pair.
\<close>

definition inner_join ::
  "row_order \<Rightarrow> ('a \<Rightarrow> 'k) \<Rightarrow> ('b \<Rightarrow> 'k) \<Rightarrow> ('a \<Rightarrow> 'b \<Rightarrow> 'c) \<Rightarrow> 'a list \<Rightarrow> 'b list \<Rightarrow> 'c list" where
  "inner_join ord kl kr f L R =
     (let pairs = (\<lambda>a. map (f a) (filter (\<lambda>b. kr b = kl a) R))
      in case ord of
           Left_rows \<Rightarrow> concat (map pairs L)
         | Key_groups \<Rightarrow>
             concat (map (\<lambda>k. concat (map pairs (filter (\<lambda>a. kl a = k) L)))
                       (first_seen (map kl L))))"

definition merge :: "merge_call \<Rightarrow> df \<Rightarrow> df \<Rightarrow> string \<Rightarrow> error + df" where
  "merge P left right key =
     (if key \<notin> set (cols left) \<or> key \<notin> set (cols right) then Inl (KeyError key)
      else if \<not> key_dtypes_agree P then Inl ValueError
      else
        let kl = index_of key (cols left);
            kr = index_of key (cols right);
            nl = length (cols left);
            nr = length (cols right);
            both = filter (\<lambda>c. c \<in> set (cols right) \<and> c \<noteq> key) (cols left)
        in Inr \<lparr>cols = map (\<lambda>c. if c \<in> set both then c @ ''_x'' else c) (cols left)
                      @ map (\<lambda>c. if c \<in> set both then c @ ''_y'' else c)
                          (drop_at kr (cols right)),
                rows = inner_join (inner_order P)
                         (\<lambda>a. cell_at a kl) (\<lambda>b. cell_at b kr)
                         (\<lambda>a b. pad nl a @ drop_at kr (pad nr b))
                         (rows left) (rows right)\<rparr>)"

section \<open>The filter, merge, filter pipeline\<close>

text \<open>
  The notebook's cells, each as a function of what it reads. \<open>sub\<close> and \<open>txt\<close> are the
  tables loaded from \<^verbatim>\<open>sub.tsv\<close> and \<^verbatim>\<open>txt.tsv\<close>, \<open>forms\<close> and \<open>tags\<close> the two
  lists the notebook calls \<^verbatim>\<open>form_types\<close> and \<^verbatim>\<open>footnote_tags\<close>, \<open>P\<close> what the one call
  of \<^verbatim>\<open>merge\<close> depends on besides the cells; an exception of a cell ends the run.
\<close>

definition df_sub :: "df \<Rightarrow> error + df" where
  "df_sub sub =
     getitem_cols sub [''adsh'', ''cik'', ''name'', ''sic'', ''form'', ''period'', ''filed'']"

definition df_sub_filtered :: "cell list \<Rightarrow> df \<Rightarrow> error + df" where
  "df_sub_filtered forms sub =
     (case df_sub sub of
        Inl e \<Rightarrow> Inl e
      | Inr d \<Rightarrow>
          (case getitem d ''form'' of
             Inl e \<Rightarrow> Inl e
           | Inr c \<Rightarrow> Inr (getitem_mask d (isin c forms))))"

definition df_txt :: "df \<Rightarrow> error + df" where
  "df_txt txt = getitem_cols txt [''adsh'', ''tag'', ''qtrs'', ''ddate'', ''value'']"

definition df_txt_filtered :: "merge_call \<Rightarrow> cell list \<Rightarrow> df \<Rightarrow> df \<Rightarrow> error + df" where
  "df_txt_filtered P forms sub txt =
     (case df_sub_filtered forms sub of
        Inl e \<Rightarrow> Inl e
      | Inr l \<Rightarrow>
          (case df_txt txt of
             Inl e \<Rightarrow> Inl e
           | Inr r \<Rightarrow> merge P l r ''adsh''))"

definition df_fn :: "merge_call \<Rightarrow> cell list \<Rightarrow> cell list \<Rightarrow> df \<Rightarrow> df \<Rightarrow> error + df" where
  "df_fn P forms tags sub txt =
     (case df_txt_filtered P forms sub txt of
        Inl e \<Rightarrow> Inl e
      | Inr d \<Rightarrow>
          (case getitem d ''tag'' of
             Inl e \<Rightarrow> Inl e
           | Inr c \<Rightarrow> Inr (getitem_mask d (isin c tags))))"

section \<open>The word counter\<close>

text \<open>
  \<^verbatim>\<open>rx_word = re.compile(r'\b[a-zA-Z\'-]+\b')\<close>. \<open>token_char\<close> is the bracket class.
  \<open>word_char\<close> is the class \<^verbatim>\<open>\w\<close> of a text pattern, which decides \<^verbatim>\<open>\b\<close>: the
  alphanumeric code points and the underscore; \<open>latin1_alnum\<close> lists the alphanumeric
  code points from 128 to 255.
\<close>

definition ascii_letter :: "char \<Rightarrow> bool" where
  "ascii_letter c =
     (let n = (of_char c :: nat) in (65 \<le> n \<and> n \<le> 90) \<or> (97 \<le> n \<and> n \<le> 122))"

definition token_char :: "char \<Rightarrow> bool" where
  "token_char c = (ascii_letter c \<or> c = CHR 0x27 \<or> c = CHR ''-'')"

definition latin1_alnum :: "char \<Rightarrow> bool" where
  "latin1_alnum c =
     (let n = (of_char c :: nat) in
        n = 170 \<or> n = 178 \<or> n = 179 \<or> n = 181 \<or> n = 185 \<or> n = 186 \<or>
        (188 \<le> n \<and> n \<le> 190) \<or> (192 \<le> n \<and> n \<le> 214) \<or>
        (216 \<le> n \<and> n \<le> 246) \<or> 248 \<le> n)"

definition word_char :: "char \<Rightarrow> bool" where
  "word_char c =
     (let n = (of_char c :: nat) in
        ascii_letter c \<or> (48 \<le> n \<and> n \<le> 57) \<or> c = CHR ''_'' \<or> latin1_alnum c)"

text \<open>
  \<^verbatim>\<open>\b\<close> between the code point before the position (none at the start of the text)
  and the rest of the text from the position on: exactly one side is a word character.
\<close>

definition boundary :: "char option \<Rightarrow> string \<Rightarrow> bool" where
  "boundary prev rest =
     ((case prev of None \<Rightarrow> False | Some p \<Rightarrow> word_char p)
      \<noteq> (case rest of [] \<Rightarrow> False | c # _ \<Rightarrow> word_char c))"

text \<open>
  One match attempt at a position: \<^verbatim>\<open>\b\<close>, then the greedy \<^verbatim>\<open>+\<close>, which takes the
  longest run of the class and gives code points back one at a time until the closing
  \<^verbatim>\<open>\b\<close> holds. The result is the length of the match.
\<close>

definition match_end :: "char option \<Rightarrow> string \<Rightarrow> nat option" where
  "match_end prev rest =
     (if boundary prev rest
      then find (\<lambda>e. boundary (Some (rest ! (e - 1))) (drop e rest))
             (rev [1 ..< Suc (length (takeWhile token_char rest))])
      else None)"

text \<open>
  \<^verbatim>\<open>rx_word.findall(text)\<close>: scan from the left; a match is kept and the scan goes on
  behind it, a failed attempt moves one code point on.
\<close>

function findall :: "char option \<Rightarrow> string \<Rightarrow> string list" where
  "findall prev rest =
     (case match_end prev rest of
        Some e \<Rightarrow> take e rest # findall (Some (rest ! (e - 1))) (drop e rest)
      | None \<Rightarrow> (case rest of [] \<Rightarrow> [] | c # cs \<Rightarrow> findall (Some c) cs))"
  by pat_completeness auto
termination
proof (relation "measure (\<lambda>(p, r). length r)")
  show "wf (measure (\<lambda>(p, r). length r))"
    by simp
next
  fix prev :: "char option" and rest :: string and e :: nat
  assume "match_end prev rest = Some e"
  then have "find (\<lambda>e. boundary (Some (rest ! (e - 1))) (drop e rest))
               (rev [1 ..< Suc (length (takeWhile token_char rest))]) = Some e"
    by (simp add: match_end_def split: if_splits)
  then have "e \<in> set (rev [1 ..< Suc (length (takeWhile token_char rest))])"
    unfolding find_Some_iff using nth_mem by metis
  then have "0 < e \<and> e \<le> length rest"
    using length_takeWhile_le [of token_char rest] by auto
  then have "length rest - e < length rest"
    by arith
  then show "((Some (rest ! (e - 1)), drop e rest), prev, rest) \<in> measure (\<lambda>(p, r). length r)"
    by simp
next
  fix prev :: "char option" and rest :: string and c :: char and cs :: string
  assume "rest = c # cs"
  then show "((Some c, cs), prev, rest) \<in> measure (\<lambda>(p, r). length r)"
    by simp
qed

text \<open>
  \<^verbatim>\<open>count_words(text)\<close>. \<^verbatim>\<open>findall\<close> of a text pattern takes a string and raises
  TypeError on any other value.
\<close>

definition count_words :: "cell \<Rightarrow> error + int" where
  "count_words text =
     (case text of
        Str s \<Rightarrow> Inr (int (length (findall None s)))
      | Num n \<Rightarrow> Inl TypeError
      | NaN \<Rightarrow> Inl TypeError)"

section \<open>The derived column\<close>

text \<open>
  \<^verbatim>\<open>df.apply(f, axis=1)\<close> on a table with rows: \<open>f\<close> on every row from the first on;
  the first exception ends the call.
\<close>

fun apply_rows :: "(cell list \<Rightarrow> error + 'a) \<Rightarrow> cell list list \<Rightarrow> error + 'a list" where
  "apply_rows f [] = Inr []"
| "apply_rows f (r # rs) =
     (case f r of
        Inl e \<Rightarrow> Inl e
      | Inr v \<Rightarrow> (case apply_rows f rs of Inl e \<Rightarrow> Inl e | Inr vs \<Rightarrow> Inr (v # vs)))"

text \<open>
  \<^verbatim>\<open>df[c] = values\<close>: an existing column is replaced where it stands, a new one is
  appended behind the last column.
\<close>

definition setitem :: "df \<Rightarrow> string \<Rightarrow> cell list \<Rightarrow> df" where
  "setitem d c vals =
     (let n = length (cols d) in
        if c \<in> set (cols d)
        then d\<lparr>rows := map (\<lambda>(r, v). (pad n r)[index_of c (cols d) := v]) (zip (rows d) vals)\<rparr>
        else \<lparr>cols = cols d @ [c],
              rows = map (\<lambda>(r, v). pad n r @ [v]) (zip (rows d) vals)\<rparr>)"

text \<open>
  \<^verbatim>\<open>df_fn['fn_length'] = df_fn.apply(lambda row: count_words(row['value']), axis=1)\<close>.
  On a table without rows pandas' \<^verbatim>\<open>apply\<close> calls the function once on a probe row,
  drops the exception it raises there and returns a copy of the table itself; assigning
  a table to one label is refused with ValueError unless it has exactly one column.
\<close>

definition add_fn_length :: "df \<Rightarrow> error + df" where
  "add_fn_length d =
     (if rows d = []
      then (if length (cols d) = 1 then Inr (setitem d ''fn_length'' []) else Inl ValueError)
      else
        (case apply_rows
                (\<lambda>row. case getitem_row d row ''value'' of
                          Inl e \<Rightarrow> Inl e
                        | Inr v \<Rightarrow> count_words v)
                (rows d) of
           Inl e \<Rightarrow> Inl e
         | Inr ns \<Rightarrow> Inr (setitem d ''fn_length'' (map Num ns))))"

section \<open>The fetcher\<close>

text \<open>
  \<^verbatim>\<open>f'{year}'\<close> and \<^verbatim>\<open>f'{month:02}'\<close> of Python integers: the decimal digits with a
  minus sign in front of a negative number, the second filled with zeros behind the
  sign up to two characters.
\<close>

fun digits :: "nat \<Rightarrow> string" where
  "digits n =
     (if n < 10 then [''0123456789'' ! n]
      else digits (n div 10) @ [''0123456789'' ! (n mod 10)])"

declare digits.simps [simp del]

definition format_int :: "int \<Rightarrow> string" where
  "format_int i = (if i < 0 then CHR ''-'' # digits (nat (- i)) else digits (nat i))"

definition format_02 :: "int \<Rightarrow> string" where
  "format_02 i =
     (if i < 0 then CHR ''-'' # digits (nat (- i))
      else if i < 10 then CHR ''0'' # digits (nat i)
      else digits (nat i))"

definition filename :: "int \<Rightarrow> int \<Rightarrow> string" where
  "filename year month = format_int year @ ''_'' @ format_02 month @ ''_notes.zip''"

definition url :: "int \<Rightarrow> int \<Rightarrow> string" where
  "url year month =
     ''https://www.sec.gov/files/dera/data/financial-statement-and-notes-data-sets/''
       @ filename year month"

text \<open>\<^verbatim>\<open>folder / name\<close>, and \<^verbatim>\<open>path.stem\<close>: the name up to its last dot, when that
  dot is neither the first nor the last character.\<close>

definition path_join :: "string \<Rightarrow> string \<Rightarrow> string" where
  "path_join folder name = folder @ ''/'' @ name"

definition stem :: "string \<Rightarrow> string" where
  "stem name =
     (let suffix = takeWhile (\<lambda>c. c \<noteq> CHR ''.'') (rev name);
          i = length name - length suffix - 1
      in if CHR ''.'' \<in> set name \<and> 0 < i \<and> suffix \<noteq> [] then take i name else name)"

text \<open>
  What the call touches. The local files with their contents, the local directories,
  the directories in which the process may not create or write a file, and the log of
  the URLs that were requested. What lies outside the notebook is a parameter: the
  working folder, the server (its answer to the \<open>n\<close>-th request of the log, an HTTP
  status with a body, or no answer at all, where \<^verbatim>\<open>requests.get\<close> raises), and the
  decoding of an archive into its members (\<open>None\<close> when \<^verbatim>\<open>zipfile\<close> rejects the
  bytes). The body of an answer is taken as received in full.
\<close>

record world =
  files :: "string \<rightharpoonup> string"
  dirs :: "string set"
  read_only :: "string set"
  requests :: "string list"

datatype response = Http nat string | NoResponse

record env =
  working_folder :: string
  server :: "nat \<Rightarrow> string \<Rightarrow> response"
  unzip :: "string \<Rightarrow> (string \<times> string) list option"

definition path_exists :: "world \<Rightarrow> string \<Rightarrow> bool" where
  "path_exists w p = (p \<in> dom (files w) \<or> p \<in> dirs w)"

text \<open>
  \<^verbatim>\<open>open(folder / name, 'wb')\<close> followed by the writing of the bytes. The call raises,
  and leaves no file, when the folder is not there, when it is a regular file, when the
  process may not write in it, and when the path is a directory.
\<close>

definition open_wb :: "world \<Rightarrow> string \<Rightarrow> string \<Rightarrow> string \<Rightarrow> error + world" where
  "open_wb w folder name data =
     (if folder \<notin> dirs w
      then (if folder \<in> dom (files w) then Inl NotADirectoryError else Inl FileNotFoundError)
      else if folder \<in> read_only w then Inl PermissionError
      else if path_join folder name \<in> dirs w then Inl IsADirectoryError
      else Inr (w\<lparr>files := (files w)(path_join folder name \<mapsto> data)\<rparr>))"

text \<open>
  \<^verbatim>\<open>output_folder.mkdir(exist_ok=True, parents=True)\<close> for a folder inside \<open>parent\<close>: a
  directory that is there is left as it is, a regular file in its place is refused.
\<close>

definition mkdir :: "world \<Rightarrow> string \<Rightarrow> string \<Rightarrow> error + world" where
  "mkdir w parent folder =
     (if folder \<in> dirs w then Inr w
      else if folder \<in> dom (files w) then Inl FileExistsError
      else if parent \<in> dom (files w) \<and> parent \<notin> dirs w then Inl NotADirectoryError
      else if parent \<in> read_only w then Inl PermissionError
      else Inr (w\<lparr>dirs := insert folder (insert parent (dirs w))\<rparr>))"

text \<open>\<^verbatim>\<open>zip.extractall(output_folder)\<close>: the members one after the other, each a file
  written into the folder; the first member that cannot be written ends the call.\<close>

fun extractall :: "(string \<times> string) list \<Rightarrow> string \<Rightarrow> world \<Rightarrow> (error + unit) \<times> world" where
  "extractall [] folder w = (Inr (), w)"
| "extractall ((name, data) # members) folder w =
     (case open_wb w folder name data of
        Inl e \<Rightarrow> (Inl e, w)
      | Inr w' \<Rightarrow> extractall members folder w')"

text \<open>
  \<^verbatim>\<open>download_xbrl_fin_notes(year, month)\<close>. The function has no \<^verbatim>\<open>return\<close> and no
  \<^verbatim>\<open>try\<close>: a call that ends without an exception gives \<^verbatim>\<open>None\<close>, here the unit value,
  and an exception of any step ends the call where it is raised. The world is returned
  as the call leaves it, also when an exception ends it.
\<close>

definition download_xbrl_fin_notes :: "env \<Rightarrow> int \<Rightarrow> int \<Rightarrow> world \<Rightarrow> (error + unit) \<times> world" where
  "download_xbrl_fin_notes E year month w =
     (let output_file = path_join (working_folder E) (filename year month) in
        if \<not> path_exists w output_file then
          (let w1 = w\<lparr>requests := requests w @ [url year month]\<rparr> in
             case server E (length (requests w)) (url year month) of
               NoResponse \<Rightarrow> (Inl ConnectionError, w1)
             | Http status_code raw \<Rightarrow>
                 if status_code = 200 then
                   (case open_wb w1 (working_folder E) (filename year month) raw of
                      Inl e \<Rightarrow> (Inl e, w1)
                    | Inr w2 \<Rightarrow>
                        (case unzip E raw of
                           None \<Rightarrow> (Inl BadZipFile, w2)
                         | Some members \<Rightarrow>
                             (let output_folder =
                                    path_join (working_folder E) (stem (filename year month))
                              in case mkdir w2 (working_folder E) output_folder of
                                   Inl e \<Rightarrow> (Inl e, w2)
                                 | Inr w3 \<Rightarrow> extractall members output_folder w3)))
                 else (Inr (), w1))
        else (Inr (), w))"

section \<open>The writer and the loader\<close>

text \<open>
  \<^verbatim>\<open>df_fn.to_csv(path, sep="\t", index=False)\<close> and \<^verbatim>\<open>pd.read_csv(path, sep='\t')\<close>
  are calls into pandas; they are modelled from its reference, on the part that the
  integers, the whole floating-point numbers, the texts and the missing value of a table
  reach. A file is taken as its lines of fields, the header line first: the quoting that
  carries a field through the bytes of the file is not modelled. Where the result is
  outside that part the model gives \<open>None\<close>, and nothing is proved there.

  How a number is written depends on the dtype of its column, which a table here does
  not hold; the dtypes of the columns are given with the table. A column of integers
  (\<^verbatim>\<open>int64\<close>) holds integers only. A floating-point column (\<^verbatim>\<open>float64\<close>) holds numbers
  and missing values, and stays one when a filter leaves it without a missing value; its
  whole numbers are written with \<^verbatim>\<open>.0\<close> behind the digits, which is exact below sixteen
  digits. A column of objects holds anything, each value written as Python prints it. A
  missing value is written as the empty field (\<^verbatim>\<open>na_rep=''\<close>).
\<close>

type_synonym tsv = "string list list"

datatype dtype = Int64 | Float64 | Object

definition in_int64 :: "int \<Rightarrow> bool" where
  "in_int64 n = (- 9223372036854775808 \<le> n \<and> n \<le> 9223372036854775807)"

definition whole_float :: "int \<Rightarrow> bool" where
  "whole_float n = (- 1000000000000000 < n \<and> n < 1000000000000000)"

definition to_csv_field :: "dtype \<Rightarrow> cell \<Rightarrow> string option" where
  "to_csv_field t c =
     (case t of
        Int64 \<Rightarrow>
          (case c of
             Num n \<Rightarrow> if in_int64 n then Some (format_int n) else None
           | Str s \<Rightarrow> None
           | NaN \<Rightarrow> None)
      | Float64 \<Rightarrow>
          (case c of
             Num n \<Rightarrow> if whole_float n then Some (format_int n @ ''.0'') else None
           | Str s \<Rightarrow> None
           | NaN \<Rightarrow> Some '''')
      | Object \<Rightarrow>
          (case c of
             Num n \<Rightarrow> Some (format_int n)
           | Str s \<Rightarrow> Some s
           | NaN \<Rightarrow> Some ''''))"

definition to_csv :: "dtype list \<Rightarrow> df \<Rightarrow> tsv option" where
  "to_csv ts d =
     (if length ts \<noteq> length (cols d) then None
      else
        (case those (map (\<lambda>r. those (map (\<lambda>(t, c). to_csv_field t c)
                                         (zip ts (pad (length (cols d)) r))))
                       (rows d)) of
           None \<Rightarrow> None
         | Some lines \<Rightarrow> Some (cols d # lines)))"

text \<open>
  Reading decides every column from its fields. \<open>na_value\<close> lists the fields that
  \<^verbatim>\<open>read_csv\<close> takes for a missing value by default, in every version of pandas since
  1.0. \<open>reserved_word\<close> holds the words that the number and truth-value parsers know, in
  either case, and \<^verbatim>\<open>None\<close>, which later versions take for a missing value.
\<close>

definition na_value :: "string \<Rightarrow> bool" where
  "na_value s = (s \<in> set ['''', ''#N/A'', ''#N/A N/A'', ''#NA'', ''-1.#IND'', ''-1.#QNAN'',
     ''-NaN'', ''-nan'', ''1.#IND'', ''1.#QNAN'', ''<NA>'', ''N/A'', ''NA'', ''NULL'', ''NaN'',
     ''n/a'', ''nan'', ''null''])"

definition same_word :: "string \<Rightarrow> string \<times> string \<Rightarrow> bool" where
  "same_word s w =
     (length s = length (fst w) \<and>
      list_all (\<lambda>(c, l, u). c = l \<or> c = u) (zip s (zip (fst w) (snd w))))"

definition reserved_word :: "string \<Rightarrow> bool" where
  "reserved_word s =
     list_ex (same_word s)
       [(''nan'', ''NAN''), (''-nan'', ''-NAN''), (''+nan'', ''+NAN''),
        (''inf'', ''INF''), (''-inf'', ''-INF''), (''+inf'', ''+INF''),
        (''infinity'', ''INFINITY''), (''-infinity'', ''-INFINITY''),
        (''+infinity'', ''+INFINITY''), (''true'', ''TRUE''), (''false'', ''FALSE''),
        (''none'', ''NONE'')]"

definition control_characters :: string where
  "control_characters =
     [CHR 0x00, CHR 0x01, CHR 0x02, CHR 0x03, CHR 0x04, CHR 0x05, CHR 0x06, CHR 0x07,
      CHR 0x08, CHR 0x09, CHR 0x0A, CHR 0x0B, CHR 0x0C, CHR 0x0D, CHR 0x0E, CHR 0x0F,
      CHR 0x10, CHR 0x11, CHR 0x12, CHR 0x13, CHR 0x14, CHR 0x15, CHR 0x16, CHR 0x17,
      CHR 0x18, CHR 0x19, CHR 0x1A, CHR 0x1B, CHR 0x1C, CHR 0x1D, CHR 0x1E, CHR 0x1F,
      CHR 0x7F]"

text \<open>
  A field that may spell a number for one of the parsers: it is written with digits,
  the point, the exponent letter, signs and spaces only, and every sign in it stands
  where a number can have one, at the start, behind a space or behind the exponent
  letter. Every number the parsers accept has this shape; an accession number such as
  \<^verbatim>\<open>0000002178-21-000005\<close>, whose hyphens follow digits, has not.
\<close>

fun signs_in_place :: "char \<Rightarrow> string \<Rightarrow> bool" where
  "signs_in_place p [] = True"
| "signs_in_place p (c # cs) =
     ((c \<notin> set ''+-'' \<or> p \<in> set ''eE '') \<and> signs_in_place c cs)"

definition number_shaped :: "string \<Rightarrow> bool" where
  "number_shaped s =
     (list_all (\<lambda>c. c \<in> set ''0123456789.eE+- '') s \<and> signs_in_place (CHR '' '') s)"

text \<open>
  A field that every parser of \<^verbatim>\<open>read_csv\<close> leaves a text: it has not the shape of a
  number (so it is not empty and not blank), it is no reserved word and no missing
  value, as it stands or when the spaces in it are left out, and no control character
  (the tab and the line ends among them) stands in the way of the field as a whole.
\<close>

definition plain_text :: "string \<Rightarrow> bool" where
  "plain_text s =
     (\<not> number_shaped s \<and>
      \<not> reserved_word (filter (\<lambda>c. c \<noteq> CHR '' '') s) \<and>
      \<not> na_value s \<and>
      \<not> na_value (filter (\<lambda>c. c \<noteq> CHR '' '') s) \<and>
      list_all (\<lambda>c. c \<notin> set control_characters) s)"

text \<open>A field of decimal digits, with a minus sign or none, and the integer it spells.\<close>

definition int_literal :: "string \<Rightarrow> bool" where
  "int_literal s =
     (case s of
        [] \<Rightarrow> False
      | c # cs \<Rightarrow>
          if c = CHR ''-'' then cs \<noteq> [] \<and> list_all (\<lambda>c. c \<in> set ''0123456789'') cs
          else list_all (\<lambda>c. c \<in> set ''0123456789'') s)"

definition digit_value :: "char \<Rightarrow> nat" where
  "digit_value c = index_of c ''0123456789''"

definition nat_value :: "string \<Rightarrow> nat" where
  "nat_value s = foldl (\<lambda>a c. 10 * a + digit_value c) 0 s"

definition int_value :: "string \<Rightarrow> int" where
  "int_value s =
     (case s of
        [] \<Rightarrow> 0
      | c # cs \<Rightarrow> if c = CHR ''-'' then - int (nat_value cs) else int (nat_value s))"

text \<open>
  A field that spells a whole floating-point number below sixteen digits, and that
  number: an integer with \<^verbatim>\<open>.0\<close> behind it, or an integer alone.
\<close>

definition float_literal :: "string \<Rightarrow> int option" where
  "float_literal s =
     (let body = take (length s - 2) s in
        if drop (length s - 2) s = ''.0'' \<and> int_literal body \<and> whole_float (int_value body)
        then Some (int_value body)
        else if int_literal s \<and> whole_float (int_value s) then Some (int_value s)
        else None)"

text \<open>
  The cells of a column from its fields. Only missing values: a column of missing
  values. Missing values and plain texts: a column of objects, every text as it stands.
  Integers of 64 bits only: a column of integers. Whole floating-point numbers, with
  missing values or none: a floating-point column. Any other column (other
  floating-point numbers, truth values, a mix of texts and numbers, which a large file
  is read piecewise for) is outside the model.
\<close>

definition infer_column :: "string list \<Rightarrow> cell list option" where
  "infer_column tokens =
     (if list_all na_value tokens then Some (map (\<lambda>t. NaN) tokens)
      else if list_all (\<lambda>t. na_value t \<or> plain_text t) tokens
        then Some (map (\<lambda>t. if na_value t then NaN else Str t) tokens)
      else if list_all (\<lambda>t. int_literal t \<and> in_int64 (int_value t)) tokens
        then Some (map (\<lambda>t. Num (int_value t)) tokens)
      else if list_all (\<lambda>t. na_value t \<or> float_literal t \<noteq> None) tokens
        then Some (map (\<lambda>t. case float_literal t of None \<Rightarrow> NaN | Some n \<Rightarrow> Num n) tokens)
      else None)"

definition field_at :: "string list \<Rightarrow> nat \<Rightarrow> string" where
  "field_at line j = (if j < length line then line ! j else '''')"

text \<open>
  \<^verbatim>\<open>read_csv\<close>: blank lines are skipped, the first line left is the header, a file
  without one raises EmptyDataError, a short line is filled with missing values. A line
  is blank when it has no field, or one field of spaces only. Header labels that pandas
  would rename (a repeated or an empty one) and lines longer than the header are outside
  the model.
\<close>

definition blank_line :: "string list \<Rightarrow> bool" where
  "blank_line l =
     (case l of
        [] \<Rightarrow> True
      | f # fs \<Rightarrow> fs = [] \<and> f \<noteq> [] \<and> list_all (\<lambda>c. c = CHR '' '') f)"

definition read_csv :: "tsv \<Rightarrow> (error + df) option" where
  "read_csv file =
     (case filter (\<lambda>l. \<not> blank_line l) file of
        [] \<Rightarrow> Some (Inl EmptyDataError)
      | header # lines \<Rightarrow>
          if \<not> distinct header \<or> [] \<in> set header
             \<or> list_ex (\<lambda>l. length header < length l) lines then None
          else
            (case those (map (\<lambda>j. infer_column (map (\<lambda>l. field_at l j) lines))
                           [0 ..< length header]) of
               None \<Rightarrow> None
             | Some columns \<Rightarrow>
                 Some (Inr \<lparr>cols = header,
                            rows = map (\<lambda>i. map (\<lambda>c. c ! i) columns) [0 ..< length lines]\<rparr>)))"

text \<open>
  The table loader, \<^verbatim>\<open>read_csv\<close> followed by the projection \<^verbatim>\<open>df[[...]]\<close> as in the
  notebook's cells, and the round trip of a table through the writer and the loader,
  projected to the table's own columns.
\<close>

definition loadTable :: "tsv \<Rightarrow> string list \<Rightarrow> (error + df) option" where
  "loadTable file names =
     (case read_csv file of
        None \<Rightarrow> None
      | Some (Inl e) \<Rightarrow> Some (Inl e)
      | Some (Inr d) \<Rightarrow> Some (getitem_cols d names))"

definition round_trip :: "dtype list \<Rightarrow> df \<Rightarrow> (error + df) option" where
  "round_trip ts d =
     (case to_csv ts d of
        None \<Rightarrow> None
      | Some file \<Rightarrow> loadTable file (cols d))"

text \<open>
  The tables the round trip is proved for: the labels of the output table, with or
  without the word count; rows as long as the header; and in every column what its dtype
  holds, a column of objects holding missing values and plain texts.
\<close>

definition output_labels :: "string list" where
  "output_labels = [''adsh'', ''cik'', ''name'', ''sic'', ''form'', ''period'', ''filed'',
                    ''tag'', ''qtrs'', ''ddate'', ''value'']"

definition storable_cell :: "dtype \<Rightarrow> cell \<Rightarrow> bool" where
  "storable_cell t c =
     (case t of
        Int64 \<Rightarrow> (case c of Num n \<Rightarrow> in_int64 n | Str s \<Rightarrow> False | NaN \<Rightarrow> False)
      | Float64 \<Rightarrow> (case c of Num n \<Rightarrow> whole_float n | Str s \<Rightarrow> False | NaN \<Rightarrow> True)
      | Object \<Rightarrow> (case c of Num n \<Rightarrow> False | Str s \<Rightarrow> plain_text s | NaN \<Rightarrow> True))"

definition storable :: "dtype list \<Rightarrow> df \<Rightarrow> bool" where
  "storable ts d =
     ((cols d = output_labels \<or> cols d = output_labels @ [''fn_length'']) \<and>
      length ts = length (cols d) \<and>
      list_all (\<lambda>r. length r = length (cols d) \<and>
                     list_all (\<lambda>(t, c). storable_cell t c) (zip ts r)) (rows d))"

section \<open>The notebook's parameters\<close>

definition form_types :: "cell list" where
  "form_types = [Str ''10-K'', Str ''10-K/A'']"

definition footnote_tags :: "cell list" where
  "footnote_tags =
     [Str ''SignificantAccountingPoliciesTextBlock'',
      Str ''BasisOfPresentationAndSignificantAccountingPoliciesTextBlock'',
      Str ''OrganizationConsolidationAndPresentationOfFinancialStatementsDisclosureAndSignificantAccountingPoliciesTextBlock'']"

section \<open>The specification's reading of the pipeline\<close>

text \<open>
  The three steps of \<^verbatim>\<open>buildFootnoteTable\<close> as the specification words them, on the
  projected rows: a submission is its seven retained cells (the form type is the fifth),
  an observation its five (the accession key first, the tag second). A joined row is the
  submission followed by the observation without its key, so the tag is its eighth cell.
  Step B goes through the retained submissions in their order and takes, for each, its
  observations in their order. These definitions are compared with the notebook's cells,
  not used by them.
\<close>

definition step_A :: "cell list \<Rightarrow> cell list list \<Rightarrow> cell list list" where
  "step_A formTypes submissions = filter (\<lambda>s. cell_at s 4 \<in> set formTypes) submissions"

definition step_B :: "cell list list \<Rightarrow> cell list list \<Rightarrow> cell list list" where
  "step_B retained observations =
     concat (map (\<lambda>s. map (\<lambda>ob. s @ tl ob)
                        (filter (\<lambda>ob. cell_at ob 0 = cell_at s 0) observations))
               retained)"

definition step_C :: "cell list \<Rightarrow> cell list list \<Rightarrow> cell list list" where
  "step_C tags joined = filter (\<lambda>j. cell_at j 7 \<in> set tags) joined"

definition buildFootnoteTable ::
  "cell list \<Rightarrow> cell list \<Rightarrow> cell list list \<Rightarrow> cell list list \<Rightarrow> cell list list" where
  "buildFootnoteTable formTypes tags submissions observations =
     step_C tags (step_B (step_A formTypes submissions) observations)"

text \<open>
  The accession keys of the submissions table, which the data model of the specification
  takes to be unique, and those of the submissions the form filter retains.
\<close>

definition accessions :: "df \<Rightarrow> cell list" where
  "accessions sub =
     (case df_sub sub of
        Inl e \<Rightarrow> []
      | Inr s \<Rightarrow> (case getitem s ''adsh'' of Inl e \<Rightarrow> [] | Inr ks \<Rightarrow> ks))"

definition retained_accessions :: "cell list \<Rightarrow> df \<Rightarrow> cell list" where
  "retained_accessions forms sub =
     (case df_sub_filtered forms sub of
        Inl e \<Rightarrow> []
      | Inr l \<Rightarrow> (case getitem l ''adsh'' of Inl e \<Rightarrow> [] | Inr ks \<Rightarrow> ks))"

text \<open>
  The two sides of the join cardinality property: the number of rows of the merged
  table, and the number of observation rows whose accession key is among the keys of the
  retained submissions.
\<close>

definition join_cardinality :: "merge_call \<Rightarrow> cell list \<Rightarrow> df \<Rightarrow> df \<Rightarrow> error + nat" where
  "join_cardinality P forms sub txt =
     (case df_txt_filtered P forms sub txt of
        Inl e \<Rightarrow> Inl e
      | Inr j \<Rightarrow> Inr (length (rows j)))"

definition matching_observations :: "cell list \<Rightarrow> df \<Rightarrow> df \<Rightarrow> error + nat" where
  "matching_observations forms sub txt =
     (case df_sub_filtered forms sub of
        Inl e \<Rightarrow> Inl e
      | Inr l \<Rightarrow>
          (case df_txt txt of
             Inl e \<Rightarrow> Inl e
           | Inr r \<Rightarrow>
               (case getitem r ''adsh'' of
                  Inl e \<Rightarrow> Inl e
                | Inr obs \<Rightarrow>
                    Inr (length (filter (\<lambda>k. k \<in> set (retained_accessions forms sub)) obs)))))"


section \<open>Example data\<close>

text \<open>
  A call of \<^verbatim>\<open>merge\<close> whose key columns agree in dtype, under either order of the
  joined rows.
\<close>

definition keys_grouped :: merge_call where
  "keys_grouped = \<lparr>inner_order = Key_groups, key_dtypes_agree = True\<rparr>"

definition left_rows :: merge_call where
  "left_rows = \<lparr>inner_order = Left_rows, key_dtypes_agree = True\<rparr>"

text \<open>
  Two loaded tables with a column the notebook drops, a submission of another form
  type, an observation under another tag and one observation row that occurs twice.
\<close>

definition sub_example :: df where
  "sub_example =
     \<lparr>cols = [''adsh'', ''cik'', ''name'', ''sic'', ''countryba'', ''form'', ''period'', ''filed''],
      rows = [[Str ''A1'', Num 1001, Str ''Alpha Corp'', Num 3570, Str ''US'', Str ''10-K'',
               Num 20201231, Num 20210115],
              [Str ''A2'', Num 1002, Str ''Beta Inc'', NaN, Str ''US'', Str ''8-K'',
               Num 20201231, Num 20210120]]\<rparr>"

definition txt_example :: df where
  "txt_example =
     \<lparr>cols = [''adsh'', ''tag'', ''version'', ''ddate'', ''qtrs'', ''value''],
      rows = [[Str ''A1'', Str ''SignificantAccountingPoliciesTextBlock'', Str ''us-gaap/2020'',
               Num 20201231, Num 4, Str ''Text one.''],
              [Str ''A2'', Str ''SignificantAccountingPoliciesTextBlock'', Str ''us-gaap/2020'',
               Num 20201231, Num 4, Str ''Text two.''],
              [Str ''A1'', Str ''IncomeTaxDisclosureTextBlock'', Str ''us-gaap/2020'',
               Num 20201231, Num 4, Str ''Tax text.''],
              [Str ''A1'', Str ''SignificantAccountingPoliciesTextBlock'', Str ''us-gaap/2020'',
               Num 20201231, Num 4, Str ''Text one.'']]\<rparr>"

definition sub_projected :: df where
  "sub_projected =
     \<lparr>cols = [''adsh'', ''cik'', ''name'', ''sic'', ''form'', ''period'', ''filed''],
      rows = [[Str ''A1'', Num 1001, Str ''Alpha Corp'', Num 3570, Str ''10-K'',
               Num 20201231, Num 20210115],
              [Str ''A2'', Num 1002, Str ''Beta Inc'', NaN, Str ''8-K'',
               Num 20201231, Num 20210120]]\<rparr>"

definition txt_projected :: df where
  "txt_projected =
     \<lparr>cols = [''adsh'', ''tag'', ''qtrs'', ''ddate'', ''value''],
      rows = [[Str ''A1'', Str ''SignificantAccountingPoliciesTextBlock'', Num 4,
               Num 20201231, Str ''Text one.''],
              [Str ''A2'', Str ''SignificantAccountingPoliciesTextBlock'', Num 4,
               Num 20201231, Str ''Text two.''],
              [Str ''A1'', Str ''IncomeTaxDisclosureTextBlock'', Num 4,
               Num 20201231, Str ''Tax text.''],
              [Str ''A1'', Str ''SignificantAccountingPoliciesTextBlock'', Num 4,
               Num 20201231, Str ''Text one.'']]\<rparr>"

definition row_example :: "cell list" where
  "row_example =
     [Str ''A1'', Num 1001, Str ''Alpha Corp'', Num 3570, Str ''10-K'', Num 20201231,
      Num 20210115, Str ''SignificantAccountingPoliciesTextBlock'', Num 4, Num 20201231,
      Str ''Text one.'']"

definition fn_example :: df where
  "fn_example =
     \<lparr>cols = [''adsh'', ''cik'', ''name'', ''sic'', ''form'', ''period'', ''filed'',
              ''tag'', ''qtrs'', ''ddate'', ''value''],
      rows = [row_example, row_example]\<rparr>"

definition fn_with_length :: df where
  "fn_with_length =
     \<lparr>cols = [''adsh'', ''cik'', ''name'', ''sic'', ''form'', ''period'', ''filed'',
              ''tag'', ''qtrs'', ''ddate'', ''value'', ''fn_length''],
      rows = [row_example @ [Num 2], row_example @ [Num 2]]\<rparr>"

text \<open>A table whose second row has no text.\<close>

definition fn_missing_value :: df where
  "fn_missing_value =
     \<lparr>cols = [''adsh'', ''cik'', ''name'', ''sic'', ''form'', ''period'', ''filed'',
              ''tag'', ''qtrs'', ''ddate'', ''value''],
      rows = [row_example,
              [Str ''A3'', Num 1003, Str ''Gamma Ltd'', Num 3570, Str ''10-K'', Num 20201231,
               Num 20210115, Str ''SignificantAccountingPoliciesTextBlock'', Num 4,
               Num 20201231, NaN]]\<rparr>"

text \<open>
  Two loaded tables in which the order of the rows can be seen. The submissions come as
  A3, A2, A1, with A2 of a form type that is not retained. The observations of A1 and A3
  alternate, the first of them under A1; one observation of A1 is under a tag that is
  not retained, and its first observation comes a second time at the end. Below them the
  four rows the pipeline returns: A3 before A1, as the submissions come, the two rows of
  A3 as its observations come, the repeated observation of A1 twice.
\<close>

definition sub_ordered :: df where
  "sub_ordered =
     \<lparr>cols = [''adsh'', ''cik'', ''name'', ''sic'', ''form'', ''period'', ''filed''],
      rows = [[Str ''A3'', Num 1003, Str ''Gamma Ltd'', Num 2834, Str ''10-K/A'',
               Num 20201231, Num 20210301],
              [Str ''A2'', Num 1002, Str ''Beta Inc'', NaN, Str ''8-K'',
               Num 20201231, Num 20210120],
              [Str ''A1'', Num 1001, Str ''Alpha Corp'', Num 3570, Str ''10-K'',
               Num 20201231, Num 20210115]]\<rparr>"

definition txt_ordered :: df where
  "txt_ordered =
     \<lparr>cols = [''adsh'', ''tag'', ''qtrs'', ''ddate'', ''value''],
      rows = [[Str ''A1'', Str ''SignificantAccountingPoliciesTextBlock'', Num 4,
               Num 20201231, Str ''Text one.''],
              [Str ''A2'', Str ''SignificantAccountingPoliciesTextBlock'', Num 4,
               Num 20201231, Str ''Text two.''],
              [Str ''A3'', Str ''SignificantAccountingPoliciesTextBlock'', Num 4,
               Num 20201231, Str ''Text three.''],
              [Str ''A1'', Str ''IncomeTaxDisclosureTextBlock'', Num 4,
               Num 20201231, Str ''Tax text.''],
              [Str ''A3'', Str ''BasisOfPresentationAndSignificantAccountingPoliciesTextBlock'',
               Num 4, Num 20201231, Str ''Text four.''],
              [Str ''A1'', Str ''SignificantAccountingPoliciesTextBlock'', Num 4,
               Num 20201231, Str ''Text one.'']]\<rparr>"

definition rows_ordered :: "cell list list" where
  "rows_ordered =
     [[Str ''A3'', Num 1003, Str ''Gamma Ltd'', Num 2834, Str ''10-K/A'', Num 20201231,
       Num 20210301, Str ''SignificantAccountingPoliciesTextBlock'', Num 4, Num 20201231,
       Str ''Text three.''],
      [Str ''A3'', Num 1003, Str ''Gamma Ltd'', Num 2834, Str ''10-K/A'', Num 20201231,
       Num 20210301, Str ''BasisOfPresentationAndSignificantAccountingPoliciesTextBlock'',
       Num 4, Num 20201231, Str ''Text four.''],
      [Str ''A1'', Num 1001, Str ''Alpha Corp'', Num 3570, Str ''10-K'', Num 20201231,
       Num 20210115, Str ''SignificantAccountingPoliciesTextBlock'', Num 4, Num 20201231,
       Str ''Text one.''],
      [Str ''A1'', Num 1001, Str ''Alpha Corp'', Num 3570, Str ''10-K'', Num 20201231,
       Num 20210115, Str ''SignificantAccountingPoliciesTextBlock'', Num 4, Num 20201231,
       Str ''Text one.'']]"

definition fn_ordered :: df where
  "fn_ordered =
     \<lparr>cols = [''adsh'', ''cik'', ''name'', ''sic'', ''form'', ''period'', ''filed'',
              ''tag'', ''qtrs'', ''ddate'', ''value''],
      rows = rows_ordered\<rparr>"

text \<open>
  An output table as the notebook has it for a month of filings, with the dtypes of its
  columns: accession numbers of digits and hyphens, the industry code and the period in
  floating-point columns because the submissions file has rows without them, a name that
  is missing, a text with apostrophes and spaces at its end. The same table with
  the word count. Then two tables of one record: one whose footnote text is the two
  digits 10, one whose footnote text is the two letters NA; and what the loader returns
  for each.
\<close>

definition fn_dtypes :: "dtype list" where
  "fn_dtypes = [Object, Int64, Object, Float64, Object, Float64, Int64,
                Object, Int64, Int64, Object]"

definition fn_stored :: df where
  "fn_stored =
     \<lparr>cols = [''adsh'', ''cik'', ''name'', ''sic'', ''form'', ''period'', ''filed'',
              ''tag'', ''qtrs'', ''ddate'', ''value''],
      rows = [[Str ''0000002178-21-000005'', Num 2178, Str ''ADAMS RESOURCES & ENERGY, INC.'',
               Num 5172, Str ''10-K'', Num 20201231, Num 20210305,
               Str ''SignificantAccountingPoliciesTextBlock'', Num 4, Num 20201231,
               Str ''Summary of 'Significant' Policies  ''],
              [Str ''0001104659-21-003503'', Num 1750, NaN,
               NaN, Str ''10-K/A'', NaN, Num 20210112,
               Str ''SignificantAccountingPoliciesTextBlock'', Num 0, Num 20200531,
               Str ''No change since 2019.'']]\<rparr>"

definition fn_stored_with_length :: df where
  "fn_stored_with_length =
     \<lparr>cols = [''adsh'', ''cik'', ''name'', ''sic'', ''form'', ''period'', ''filed'',
              ''tag'', ''qtrs'', ''ddate'', ''value'', ''fn_length''],
      rows = [[Str ''0000002178-21-000005'', Num 2178, Str ''ADAMS RESOURCES & ENERGY, INC.'',
               Num 5172, Str ''10-K'', Num 20201231, Num 20210305,
               Str ''SignificantAccountingPoliciesTextBlock'', Num 4, Num 20201231,
               Str ''Summary of 'Significant' Policies  '', Num 4],
              [Str ''0001104659-21-003503'', Num 1750, NaN,
               NaN, Str ''10-K/A'', NaN, Num 20210112,
               Str ''SignificantAccountingPoliciesTextBlock'', Num 0, Num 20200531,
               Str ''No change since 2019.'', Num 3]]\<rparr>"

definition fn_digit_text :: df where
  "fn_digit_text =
     \<lparr>cols = [''adsh'', ''cik'', ''name'', ''sic'', ''form'', ''period'', ''filed'',
              ''tag'', ''qtrs'', ''ddate'', ''value''],
      rows = [[Str ''A1'', Num 1001, Str ''Alpha Corp'', Num 3570, Str ''10-K'', Num 20201231,
               Num 20210115, Str ''SignificantAccountingPoliciesTextBlock'', Num 4,
               Num 20201231, Str ''10'']]\<rparr>"

definition fn_digit_text_loaded :: df where
  "fn_digit_text_loaded =
     \<lparr>cols = [''adsh'', ''cik'', ''name'', ''sic'', ''form'', ''period'', ''filed'',
              ''tag'', ''qtrs'', ''ddate'', ''value''],
      rows = [[Str ''A1'', Num 1001, Str ''Alpha Corp'', Num 3570, Str ''10-K'', Num 20201231,
               Num 20210115, Str ''SignificantAccountingPoliciesTextBlock'', Num 4,
               Num 20201231, Num 10]]\<rparr>"

definition fn_na_text :: df where
  "fn_na_text =
     \<lparr>cols = [''adsh'', ''cik'', ''name'', ''sic'', ''form'', ''period'', ''filed'',
              ''tag'', ''qtrs'', ''ddate'', ''value''],
      rows = [[Str ''A1'', Num 1001, Str ''Alpha Corp'', Num 3570, Str ''10-K'', Num 20201231,
               Num 20210115, Str ''SignificantAccountingPoliciesTextBlock'', Num 4,
               Num 20201231, Str ''NA'']]\<rparr>"

definition fn_na_text_loaded :: df where
  "fn_na_text_loaded =
     \<lparr>cols = [''adsh'', ''cik'', ''name'', ''sic'', ''form'', ''period'', ''filed'',
              ''tag'', ''qtrs'', ''ddate'', ''value''],
      rows = [[Str ''A1'', Num 1001, Str ''Alpha Corp'', Num 3570, Str ''10-K'', Num 20201231,
               Num 20210115, Str ''SignificantAccountingPoliciesTextBlock'', Num 4,
               Num 20201231, NaN]]\<rparr>"

text \<open>
  Worlds and environments for the fetcher: the working folder with nothing in it; no
  working folder at all; the working folder with the archive and without the extraction
  folder; a server that answers 404, and one that answers 200 with an archive of two
  members.
\<close>

definition world_empty :: world where
  "world_empty =
     \<lparr>files = Map.empty, dirs = {''/home/user''}, read_only = {}, requests = []\<rparr>"


definition world_archive_only :: world where
  "world_archive_only =
     \<lparr>files = [''/home/user/2021_01_notes.zip'' \<mapsto> ''PK-archive''],
      dirs = {''/home/user''}, read_only = {}, requests = []\<rparr>"

definition env_404 :: env where
  "env_404 = \<lparr>working_folder = ''/home/user'',
              server = (\<lambda>n u. Http 404 ''Not Found''),
              unzip = (\<lambda>raw. None)\<rparr>"

definition env_200 :: env where
  "env_200 = \<lparr>working_folder = ''/home/user'',
              server = (\<lambda>n u. Http 200 ''PK-archive''),
              unzip = (\<lambda>raw. if raw = ''PK-archive''
                              then Some [(''sub.tsv'', ''adsh''), (''txt.tsv'', ''adsh'')]
                              else None)\<rparr>"

section \<open>Facts about the table operations\<close>

declare findall.simps [simp del]

lemmas table_defs = df_fn_def df_txt_filtered_def df_sub_filtered_def df_sub_def df_txt_def
  getitem_cols_def getitem_def getitem_mask_def isin_def merge_def inner_join_def
  first_seen_def cell_at_def pad_def drop_at_def

lemmas regex_defs = count_words_def match_end_def boundary_def word_char_def token_char_def
  ascii_letter_def latin1_alnum_def findall.simps

lemmas fetch_defs = download_xbrl_fin_notes_def open_wb_def mkdir_def path_exists_def
  path_join_def url_def filename_def format_int_def format_02_def digits.simps stem_def

lemma mask_filter: "map fst (filter snd (zip xs (map P xs))) = filter P xs"
  by (induction xs) auto

lemma getitem_cols_Inr:
  "getitem_cols d names = Inr d' \<Longrightarrow>
     cols d' = names \<and>
     rows d' = map (\<lambda>r. map (\<lambda>n. cell_at r (index_of n (cols d))) names) (rows d)"
  by (auto simp: getitem_cols_def split: option.splits)

lemma pad_id: "length r = n \<Longrightarrow> pad n r = r"
  by (auto simp: pad_def cell_at_def intro: nth_equalityI)

lemma drop_at_0: "drop_at 0 xs = tl xs"
  by (simp add: drop_at_def drop_Suc)

lemma filter_by_label:
  "c \<in> set (cols d) \<Longrightarrow> getitem d c = Inr xs \<Longrightarrow>
     getitem_mask d (isin xs vals)
       = d\<lparr>rows := filter (\<lambda>r. cell_at r (index_of c (cols d)) \<in> set vals) (rows d)\<rparr>"
  by (auto simp: getitem_def getitem_mask_def isin_def comp_def
        mask_filter [where P = "\<lambda>r. cell_at r (index_of c (cols d)) \<in> set vals"])

lemma df_sub_Inr:
  assumes "df_sub sub = Inr s"
  shows "cols s = [''adsh'', ''cik'', ''name'', ''sic'', ''form'', ''period'', ''filed'']"
    and "\<forall>r \<in> set (rows s). length r = 7"
  using getitem_cols_Inr [OF assms [unfolded df_sub_def]] by auto

lemma df_txt_Inr:
  assumes "df_txt txt = Inr t"
  shows "cols t = [''adsh'', ''tag'', ''qtrs'', ''ddate'', ''value'']"
    and "\<forall>r \<in> set (rows t). length r = 5"
  using getitem_cols_Inr [OF assms [unfolded df_txt_def]] by auto

lemma df_sub_filtered_Inr:
  assumes "df_sub_filtered forms sub = Inr l"
  shows "\<exists>s. df_sub sub = Inr s \<and> cols l = cols s \<and> rows l = step_A forms (rows s)"
proof -
  from assms obtain s c where s: "df_sub sub = Inr s" and c: "getitem s ''form'' = Inr c"
    and l: "l = getitem_mask s (isin c forms)"
    by (auto simp: df_sub_filtered_def split: sum.splits)
  have "index_of ''form'' (cols s) = 4" "''form'' \<in> set (cols s)"
    using df_sub_Inr(1) [OF s] by simp_all
  with filter_by_label [OF _ c, of forms] l s show ?thesis
    by (simp add: step_A_def)
qed

text \<open>
  The joined rows under either order: the same rows, and in the order of the left rows
  when no key comes twice on the left.
\<close>

lemma first_seen_set: "set (first_seen xs) = set xs"
  by (simp add: first_seen_def)

lemma first_seen_distinct: "distinct xs \<Longrightarrow> first_seen xs = xs"
  by (simp add: first_seen_def distinct_remdups_id)

lemma inner_join_Left_rows:
  "inner_join Left_rows kl kr f L R
     = concat (map (\<lambda>a. map (f a) (filter (\<lambda>b. kr b = kl a) R)) L)"
  by (simp add: inner_join_def)

lemma set_inner_join:
  "set (inner_join ord kl kr f L R) = {f a b | a b. a \<in> set L \<and> b \<in> set R \<and> kr b = kl a}"
proof (cases ord)
  case Left_rows
  then show ?thesis
    by (auto simp: inner_join_def)
next
  case Key_groups
  then show ?thesis
    by (fastforce simp: inner_join_def first_seen_set)
qed

lemma inner_join_cong:
  assumes "\<And>a b. a \<in> set L \<Longrightarrow> b \<in> set R \<Longrightarrow> f a b = g a b"
  shows "inner_join ord kl kr f L R = inner_join ord kl kr g L R"
proof -
  have "map (f a) (filter (\<lambda>b. kr b = kl a) R) = map (g a) (filter (\<lambda>b. kr b = kl a) R)"
    if "a \<in> set L" for a
    using assms that by simp
  then have 1: "map (\<lambda>a. map (f a) (filter (\<lambda>b. kr b = kl a) R)) M
              = map (\<lambda>a. map (g a) (filter (\<lambda>b. kr b = kl a) R)) M" if "set M \<subseteq> set L" for M
    using that by (intro map_cong) auto
  have 2: "map (\<lambda>a. map (f a) (filter (\<lambda>b. kr b = kl a) R)) (filter (\<lambda>a. kl a = k) L)
         = map (\<lambda>a. map (g a) (filter (\<lambda>b. kr b = kl a) R)) (filter (\<lambda>a. kl a = k) L)" for k
    by (rule 1) auto
  show ?thesis
    by (cases ord) (simp_all add: inner_join_def 1 2)
qed

lemma filter_key_single:
  "distinct (map kl L) \<Longrightarrow> a \<in> set L \<Longrightarrow> filter (\<lambda>x. kl x = kl a) L = [a]"
proof (induction L)
  case Nil
  then show ?case by simp
next
  case (Cons x L)
  show ?case
  proof (cases "a = x")
    case True
    from Cons.prems(1) have "kl x \<notin> kl ` set L"
      by simp
    then have "filter (\<lambda>y. kl y = kl x) L = []"
      unfolding filter_empty_conv by (metis imageI)
    with True show ?thesis by simp
  next
    case False
    with Cons.prems have a: "a \<in> set L" and "kl x \<noteq> kl a"
      by auto
    with Cons show ?thesis by simp
  qed
qed

lemma inner_join_distinct:
  assumes "distinct (map kl L)"
  shows "inner_join ord kl kr f L R = inner_join Left_rows kl kr f L R"
proof (cases ord)
  case Left_rows
  then show ?thesis by simp
next
  case Key_groups
  let ?pairs = "\<lambda>a. map (f a) (filter (\<lambda>b. kr b = kl a) R)"
  have m: "map (\<lambda>k. concat (map ?pairs (filter (\<lambda>a. kl a = k) L))) (map kl L) = map ?pairs L"
    by (simp add: filter_key_single [OF assms])
  show ?thesis
    unfolding Key_groups inner_join_def Let_def
    by (simp only: row_order.case first_seen_distinct [OF assms] m)
qed

text \<open>
  With a key that comes back on the left after another key the two orders differ:
  the second row of the key 1 is third by the left rows and second by the keys.
\<close>

lemma inner_join_orders:
  "inner_join Left_rows fst fst (\<lambda>a b. (snd a, snd b))
     [(1::nat, ''a''), (2, ''b''), (1, ''c'')] [(1::nat, ''x''), (2, ''y'')]
     = [(''a'', ''x''), (''b'', ''y''), (''c'', ''x'')] \<and>
   inner_join Key_groups fst fst (\<lambda>a b. (snd a, snd b))
     [(1::nat, ''a''), (2, ''b''), (1, ''c'')] [(1::nat, ''x''), (2, ''y'')]
     = [(''a'', ''x''), (''c'', ''x''), (''b'', ''y'')]"
  by (simp add: inner_join_def first_seen_def)

text \<open>The merge of the two projected tables joins their rows on the first cell.\<close>

lemma merge_adsh:
  assumes l: "cols l = [''adsh'', ''cik'', ''name'', ''sic'', ''form'', ''period'', ''filed'']"
      and r: "cols r = [''adsh'', ''tag'', ''qtrs'', ''ddate'', ''value'']"
      and ll: "\<forall>a \<in> set (rows l). length a = 7"
      and lr: "\<forall>b \<in> set (rows r). length b = 5"
      and P: "key_dtypes_agree P"
  shows "merge P l r ''adsh'' =
           Inr \<lparr>cols = [''adsh'', ''cik'', ''name'', ''sic'', ''form'', ''period'', ''filed'',
                        ''tag'', ''qtrs'', ''ddate'', ''value''],
                rows = inner_join (inner_order P) (\<lambda>a. cell_at a 0) (\<lambda>b. cell_at b 0)
                         (\<lambda>a b. a @ tl b) (rows l) (rows r)\<rparr>"
proof -
  have "inner_join (inner_order P) (\<lambda>a. cell_at a 0) (\<lambda>b. cell_at b 0)
          (\<lambda>a b. pad 7 a @ drop_at 0 (pad 5 b)) (rows l) (rows r)
        = inner_join (inner_order P) (\<lambda>a. cell_at a 0) (\<lambda>b. cell_at b 0)
            (\<lambda>a b. a @ tl b) (rows l) (rows r)"
    using ll lr by (intro inner_join_cong) (simp add: pad_id drop_at_0)
  then show ?thesis
    using P by (simp add: merge_def l r drop_at_def eval_nat_numeral)
qed

lemma merge_disagree:
  assumes "merge P l r key = Inr j"
  shows "key_dtypes_agree P"
  using assms by (auto simp: merge_def split: if_splits)

lemma df_txt_filtered_Inr:
  assumes "df_txt_filtered P forms sub txt = Inr j"
  shows "\<exists>s t. df_sub sub = Inr s \<and> df_txt txt = Inr t \<and> key_dtypes_agree P \<and>
           j = \<lparr>cols = [''adsh'', ''cik'', ''name'', ''sic'', ''form'', ''period'', ''filed'',
                        ''tag'', ''qtrs'', ''ddate'', ''value''],
                rows = inner_join (inner_order P) (\<lambda>a. cell_at a 0) (\<lambda>b. cell_at b 0)
                         (\<lambda>a b. a @ tl b) (step_A forms (rows s)) (rows t)\<rparr>"
proof -
  from assms obtain l t where l: "df_sub_filtered forms sub = Inr l"
    and t: "df_txt txt = Inr t" and j: "merge P l t ''adsh'' = Inr j"
    by (auto simp: df_txt_filtered_def split: sum.splits)
  from df_sub_filtered_Inr [OF l] obtain s where s: "df_sub sub = Inr s"
    and cl: "cols l = cols s" and rl: "rows l = step_A forms (rows s)"
    by blast
  have "\<forall>a \<in> set (rows l). length a = 7"
    using df_sub_Inr(2) [OF s] rl by (simp add: step_A_def)
  from merge_adsh [OF _ df_txt_Inr(1) [OF t] this df_txt_Inr(2) [OF t] merge_disagree [OF j]]
    cl df_sub_Inr(1) [OF s] j rl s t merge_disagree [OF j]
  show ?thesis by auto
qed

lemma df_fn_Inr:
  assumes "df_fn P forms tags sub txt = Inr out"
  shows "\<exists>s t. df_sub sub = Inr s \<and> df_txt txt = Inr t \<and> key_dtypes_agree P \<and>
           out = \<lparr>cols = [''adsh'', ''cik'', ''name'', ''sic'', ''form'', ''period'', ''filed'',
                          ''tag'', ''qtrs'', ''ddate'', ''value''],
                  rows = step_C tags
                           (inner_join (inner_order P) (\<lambda>a. cell_at a 0) (\<lambda>b. cell_at b 0)
                              (\<lambda>a b. a @ tl b) (step_A forms (rows s)) (rows t))\<rparr>"
proof -
  from assms obtain j c where j: "df_txt_filtered P forms sub txt = Inr j"
    and c: "getitem j ''tag'' = Inr c" and out: "out = getitem_mask j (isin c tags)"
    by (auto simp: df_fn_def split: sum.splits)
  from df_txt_filtered_Inr [OF j] obtain s t where s: "df_sub sub = Inr s"
    and t: "df_txt txt = Inr t" and P: "key_dtypes_agree P"
    and jj: "j = \<lparr>cols = [''adsh'', ''cik'', ''name'', ''sic'', ''form'', ''period'', ''filed'',
                          ''tag'', ''qtrs'', ''ddate'', ''value''],
                  rows = inner_join (inner_order P) (\<lambda>a. cell_at a 0) (\<lambda>b. cell_at b 0)
                           (\<lambda>a b. a @ tl b) (step_A forms (rows s)) (rows t)\<rparr>"
    by blast
  have "index_of ''tag'' (cols j) = 7" "''tag'' \<in> set (cols j)"
    by (simp_all add: jj)
  with filter_by_label [OF _ c, of tags] out s t P jj show ?thesis
    by (simp add: step_C_def eval_nat_numeral)
qed

text \<open>
  Step B is the join in the order of the left rows; under either order it is the join
  when the retained submissions have distinct accession keys.
\<close>

lemma step_B_inner_join:
  "step_B L R = inner_join Left_rows (\<lambda>a. cell_at a 0) (\<lambda>b. cell_at b 0) (\<lambda>a b. a @ tl b) L R"
  by (simp add: step_B_def inner_join_def)

lemma accessions_Inr:
  assumes "df_sub sub = Inr s"
  shows "accessions sub = map (\<lambda>a. cell_at a 0) (rows s)"
    and "retained_accessions forms sub = map (\<lambda>a. cell_at a 0) (step_A forms (rows s))"
proof -
  show "accessions sub = map (\<lambda>a. cell_at a 0) (rows s)"
    using assms df_sub_Inr(1) [OF assms] by (simp add: accessions_def getitem_def)
  have c: "cols s = [''adsh'', ''cik'', ''name'', ''sic'', ''form'', ''period'', ''filed'']"
    by (rule df_sub_Inr(1) [OF assms])
  then obtain xs where xs: "getitem s ''form'' = Inr xs"
    by (simp add: getitem_def)
  from c have "index_of ''form'' (cols s) = 4" "''form'' \<in> set (cols s)"
    by simp_all
  with filter_by_label [OF _ xs, of forms] assms xs c
  show "retained_accessions forms sub = map (\<lambda>a. cell_at a 0) (step_A forms (rows s))"
    by (simp add: retained_accessions_def df_sub_filtered_def step_A_def getitem_def
          eval_nat_numeral)
qed

lemma retained_distinct:
  assumes "df_sub sub = Inr s" and "distinct (accessions sub)"
  shows "distinct (map (\<lambda>a. cell_at a 0) (step_A forms (rows s)))"
  using assms accessions_Inr(1) [OF assms(1)]
  by (simp add: step_A_def distinct_map_filter)

lemma df_sub_filtered_total:
  assumes "df_sub sub = Inr s"
  shows "df_sub_filtered forms sub = Inr (s\<lparr>rows := step_A forms (rows s)\<rparr>)"
proof -
  have c: "cols s = [''adsh'', ''cik'', ''name'', ''sic'', ''form'', ''period'', ''filed'']"
    by (rule df_sub_Inr(1) [OF assms])
  then obtain xs where xs: "getitem s ''form'' = Inr xs"
    by (simp add: getitem_def)
  from c have "index_of ''form'' (cols s) = 4" "''form'' \<in> set (cols s)"
    by simp_all
  with filter_by_label [OF _ xs, of forms] assms xs show ?thesis
    by (simp add: df_sub_filtered_def step_A_def)
qed

text \<open>The three steps as one pass over the pairs of a submission and an observation.\<close>

lemma step_B_product:
  "step_B L R = map (\<lambda>(a, b). a @ tl b)
                  (filter (\<lambda>(a, b). cell_at b 0 = cell_at a 0) (List.product L R))"
  by (induction L) (simp_all add: step_B_def filter_map comp_def)

lemma cell_at_joined:
  "length a = 7 \<Longrightarrow> cell_at (a @ tl b) 4 = cell_at a 4"
  "length a = 7 \<Longrightarrow> cell_at (a @ tl b) 7 = cell_at b 1"
  by (cases b; simp add: cell_at_def nth_append)+

lemma buildFootnoteTable_product:
  assumes "\<forall>a \<in> set L. length a = 7"
  shows "buildFootnoteTable forms tags L R =
           map (\<lambda>(a, b). a @ tl b)
             (filter (\<lambda>(a, b). cell_at a 4 \<in> set forms \<and> cell_at b 0 = cell_at a 0
                                \<and> cell_at b 1 \<in> set tags)
                (List.product L R))"
proof -
  have "List.product (filter P L) R = filter (\<lambda>(a, b). P a) (List.product L R)" for P
    by (induction L) (simp_all add: filter_map comp_def)
  then have "buildFootnoteTable forms tags L R =
      map (\<lambda>(a, b). a @ tl b)
        (filter ((\<lambda>j. cell_at j 7 \<in> set tags) \<circ> (\<lambda>(a, b). a @ tl b))
           (filter (\<lambda>(a, b). cell_at b 0 = cell_at a 0)
              (filter (\<lambda>(a, b). cell_at a 4 \<in> set forms) (List.product L R))))"
    by (simp add: buildFootnoteTable_def step_C_def step_A_def step_B_product filter_map)
  also have "\<dots> = map (\<lambda>(a, b). a @ tl b)
             (filter (\<lambda>(a, b). cell_at a 4 \<in> set forms \<and> cell_at b 0 = cell_at a 0
                                \<and> cell_at b 1 \<in> set tags)
                (List.product L R))"
    using assms by (auto intro!: arg_cong [where f = "map _"] filter_cong simp: cell_at_joined)
  finally show ?thesis .
qed

text \<open>Counting the rows of step B when no two retained submissions share a key.\<close>

lemma length_filter_disjoint:
  "(\<And>x. x \<in> set xs \<Longrightarrow> \<not> (P x \<and> Q x)) \<Longrightarrow>
     length (filter P xs) + length (filter Q xs) = length (filter (\<lambda>x. P x \<or> Q x) xs)"
  by (induction xs) auto

lemma length_step_B:
  "distinct (map (\<lambda>a. cell_at a 0) L) \<Longrightarrow>
     length (step_B L R)
       = length (filter (\<lambda>b. cell_at b 0 \<in> set (map (\<lambda>a. cell_at a 0) L)) R)"
proof (induction L)
  case Nil
  then show ?case by (simp add: step_B_def)
next
  case (Cons a L)
  have "length (step_B (a # L) R)
          = length (filter (\<lambda>b. cell_at b 0 = cell_at a 0) R) + length (step_B L R)"
    by (simp add: step_B_def)
  also have "\<dots> = length (filter (\<lambda>b. cell_at b 0 = cell_at a 0) R)
                   + length (filter (\<lambda>b. cell_at b 0 \<in> set (map (\<lambda>a. cell_at a 0) L)) R)"
    using Cons by simp
  also have "\<dots> = length (filter (\<lambda>b. cell_at b 0 = cell_at a 0
                                  \<or> cell_at b 0 \<in> set (map (\<lambda>a. cell_at a 0) L)) R)"
    using Cons.prems by (intro length_filter_disjoint) auto
  finally show ?case
    by (simp cong: filter_cong)
qed

text \<open>The example tables through the notebook's cells.\<close>

lemma df_sub_example: "df_sub sub_example = Inr sub_projected"
  by (simp add: table_defs sub_example_def sub_projected_def)

lemma df_txt_example: "df_txt txt_example = Inr txt_projected"
  by (simp add: table_defs txt_example_def txt_projected_def)

lemma df_fn_example:
  "df_fn keys_grouped form_types footnote_tags sub_example txt_example = Inr fn_example"
  by (simp add: table_defs keys_grouped_def form_types_def footnote_tags_def sub_example_def
        txt_example_def fn_example_def row_example_def)

lemma add_fn_length_example: "add_fn_length fn_example = Inr fn_with_length"
  by (simp add: add_fn_length_def fn_example_def fn_with_length_def row_example_def
        getitem_row_def setitem_def cell_at_def pad_def regex_defs)

lemma df_sub_ordered: "df_sub sub_ordered = Inr sub_ordered"
  by (simp add: table_defs sub_ordered_def)

lemma df_txt_ordered: "df_txt txt_ordered = Inr txt_ordered"
  by (simp add: table_defs txt_ordered_def)

lemma accessions_ordered: "accessions sub_ordered = [Str ''A3'', Str ''A2'', Str ''A1'']"
  by (simp add: accessions_def df_sub_ordered) (simp add: getitem_def sub_ordered_def cell_at_def)

lemma df_fn_ordered_grouped:
  "df_fn keys_grouped form_types footnote_tags sub_ordered txt_ordered = Inr fn_ordered"
  by (simp add: table_defs keys_grouped_def form_types_def footnote_tags_def sub_ordered_def
        txt_ordered_def fn_ordered_def rows_ordered_def)

lemma df_fn_ordered_left:
  "df_fn left_rows form_types footnote_tags sub_ordered txt_ordered = Inr fn_ordered"
  by (simp add: table_defs left_rows_def form_types_def footnote_tags_def sub_ordered_def
        txt_ordered_def fn_ordered_def rows_ordered_def)

lemma join_cardinality_ordered:
  "join_cardinality keys_grouped form_types sub_ordered txt_ordered = Inr 5"
  by (simp add: join_cardinality_def table_defs keys_grouped_def form_types_def sub_ordered_def
        txt_ordered_def)

section \<open>Facts about the derived column and the fetcher\<close>

lemma apply_rows_TypeError:
  assumes "\<forall>r \<in> set rs. f r = Inl TypeError \<or> (\<exists>v. f r = Inr v)"
    and "\<exists>r \<in> set rs. f r = Inl TypeError"
  shows "apply_rows f rs = Inl TypeError"
  using assms
proof (induction rs)
  case Nil
  then show ?case by simp
next
  case (Cons r rs)
  show ?case
  proof (cases "f r")
    case (Inl e)
    with Cons.prems(1) show ?thesis by auto
  next
    case (Inr v)
    with Cons.prems have "\<exists>r \<in> set rs. f r = Inl TypeError" by auto
    with Cons.IH Cons.prems(1) have "apply_rows f rs = Inl TypeError" by simp
    with Inr show ?thesis by simp
  qed
qed

lemma count_words_cases:
  "count_words v = Inl TypeError \<or> (\<exists>n. count_words v = Inr n)"
  by (cases v) (simp_all add: count_words_def)

lemma add_fn_length_cols:
  assumes "add_fn_length d = Inr d'" and "''fn_length'' \<notin> set (cols d)"
  shows "cols d' = cols d @ [''fn_length'']"
  using assms by (auto simp: add_fn_length_def setitem_def split: if_splits sum.splits)

lemma download_existing:
  "path_exists w (path_join (working_folder E) (filename year month)) \<Longrightarrow>
     download_xbrl_fin_notes E year month w = (Inr (), w)"
  by (simp add: download_xbrl_fin_notes_def Let_def)








lemma download_example:
  "download_xbrl_fin_notes env_200 2021 1 world_empty =
     (Inr (), \<lparr>files = [''/home/user/2021_01_notes.zip'' \<mapsto> ''PK-archive'',
                        ''/home/user/2021_01_notes/sub.tsv'' \<mapsto> ''adsh'',
                        ''/home/user/2021_01_notes/txt.tsv'' \<mapsto> ''adsh''],
               dirs = {''/home/user/2021_01_notes'', ''/home/user''},
               read_only = {},
               requests = [''https://www.sec.gov/files/dera/data/financial-statement-and-notes-data-sets/2021_01_notes.zip'']\<rparr>)"
  by (simp add: fetch_defs env_200_def world_empty_def)


section \<open>Facts about the writer and the loader\<close>

text \<open>The decimal digits of a number spell it.\<close>

lemma digit_char_value: "k < 10 \<Longrightarrow> digit_value (''0123456789'' ! k) = k"
proof -
  assume "k < 10"
  then consider "k = 0" | "k = 1" | "k = 2" | "k = 3" | "k = 4" | "k = 5" | "k = 6"
    | "k = 7" | "k = 8" | "k = 9"
    by atomize_elim arith
  then show ?thesis
    by cases (simp_all add: digit_value_def)
qed

lemma nat_value_snoc: "nat_value (xs @ [c]) = 10 * nat_value xs + digit_value c"
  by (simp add: nat_value_def)

lemma digits_facts:
  "digits n \<noteq> [] \<and> list_all (\<lambda>c. c \<in> set ''0123456789'') (digits n) \<and> nat_value (digits n) = n"
proof (induction n rule: digits.induct)
  case (1 n)
  show ?case
  proof (cases "n < 10")
    case True
    then have "''0123456789'' ! n \<in> set ''0123456789''"
      by (intro nth_mem) simp
    with True digit_char_value [of n] show ?thesis
      by (subst digits.simps, subst digits.simps, subst digits.simps) (simp add: nat_value_def)
  next
    case False
    have m: "n mod 10 < 10" by simp
    then have "''0123456789'' ! (n mod 10) \<in> set ''0123456789''"
      by (intro nth_mem) simp
    with False 1 digit_char_value [OF m] show ?thesis
      by (subst digits.simps, subst digits.simps, subst digits.simps)
         (simp add: nat_value_snoc)
  qed
qed

lemma format_int_chars:
  "format_int n \<noteq> [] \<and> list_all (\<lambda>c. c \<in> set ''-0123456789'') (format_int n)"
  using digits_facts [of "nat n"] digits_facts [of "nat (- n)"]
  by (auto simp: format_int_def list_all_iff)

lemma format_int_literal: "int_literal (format_int n) \<and> int_value (format_int n) = n"
proof (cases "n < 0")
  case True
  with digits_facts [of "nat (- n)"] show ?thesis
    by (simp add: format_int_def int_literal_def int_value_def)
next
  case False
  obtain c cs where d: "digits (nat n) = c # cs"
    using digits_facts [of "nat n"] by (cases "digits (nat n)") auto
  with digits_facts [of "nat n"] have "c \<noteq> CHR ''-''"
    by auto
  with False d digits_facts [of "nat n"] show ?thesis
    by (simp add: format_int_def int_literal_def int_value_def)
qed

text \<open>
  What the writer makes of a number is no missing value and no plain text, and what it
  makes of a floating-point number is no integer.
\<close>

lemma digits_not_na:
  "s \<noteq> [] \<Longrightarrow> list_all (\<lambda>c. c \<in> set ''-0123456789.'') s \<Longrightarrow> \<not> na_value s"
  by (auto simp: na_value_def)

lemma list_all_mono: "list_all P xs \<Longrightarrow> (\<And>x. P x \<Longrightarrow> Q x) \<Longrightarrow> list_all Q xs"
  by (simp add: list_all_iff)

lemma with_point: "c \<in> set ''-0123456789'' \<Longrightarrow> c \<in> set ''-0123456789.''"
  by auto

lemma format_int_with_point: "list_all (\<lambda>c. c \<in> set ''-0123456789.'') (format_int n)"
proof (rule list_all_mono)
  show "list_all (\<lambda>c. c \<in> set ''-0123456789'') (format_int n)"
    using format_int_chars [of n] by (elim conjE)
qed (rule with_point)

lemma format_int_not_na: "\<not> na_value (format_int n)"
proof (rule digits_not_na)
  show "format_int n \<noteq> []"
    using format_int_chars [of n] by (elim conjE)
qed (rule format_int_with_point)

lemma format_float_not_na: "\<not> na_value (format_int n @ ''.0'')"
proof (rule digits_not_na)
  show "format_int n @ ''.0'' \<noteq> []"
    by simp
  have "list_all (\<lambda>c. c \<in> set ''-0123456789.'') ''.0''"
    by simp
  with format_int_with_point [of n]
  show "list_all (\<lambda>c. c \<in> set ''-0123456789.'') (format_int n @ ''.0'')"
    by (simp only: list_all_append)
qed

lemma signs_none: "list_all (\<lambda>c. c \<notin> set ''+-'') cs \<Longrightarrow> signs_in_place p cs"
  by (induction cs arbitrary: p) simp_all

lemma no_sign: "c \<in> set ''0123456789.'' \<Longrightarrow> c \<notin> set ''+-''"
  by auto

lemma in_alphabet: "c \<in> set ''0123456789.'' \<Longrightarrow> c \<in> set ''0123456789.eE+- ''"
  by auto

lemma digit_or_point: "c \<in> set ''0123456789'' \<Longrightarrow> c \<in> set ''0123456789.''"
  by auto

lemma digits_shaped:
  assumes "list_all (\<lambda>c. c \<in> set ''0123456789.'') tail"
  shows "number_shaped (format_int n @ tail)"
proof -
  have "list_all (\<lambda>c. c \<in> set ''0123456789'') (digits k)" for k
    using digits_facts [of k] by (elim conjE)
  then have "list_all (\<lambda>c. c \<in> set ''0123456789.'') (digits k)" for k
    by (rule list_all_mono) (rule digit_or_point)
  with assms have d: "list_all (\<lambda>c. c \<in> set ''0123456789.'') (digits k @ tail)" for k
    by (simp only: list_all_append)
  have "list_all (\<lambda>c. c \<notin> set ''+-'') (digits k @ tail)" for k
    by (rule list_all_mono [OF d]) (rule no_sign)
  then have s: "signs_in_place p (digits k @ tail)" for p k
    by (rule signs_none)
  have a: "list_all (\<lambda>c. c \<in> set ''0123456789.eE+- '') (digits k @ tail)" for k
    by (rule list_all_mono [OF d]) (rule in_alphabet)
  show ?thesis
  proof (cases "n < 0")
    case True
    have "CHR ''-'' \<in> set ''0123456789.eE+- ''"
      by simp
    with a [of "nat (- n)"]
    have 1: "list_all (\<lambda>c. c \<in> set ''0123456789.eE+- '') (CHR ''-'' # digits (nat (- n)) @ tail)"
      unfolding list.pred_inject by (intro conjI)
    have 2: "signs_in_place (CHR '' '') (CHR ''-'' # digits (nat (- n)) @ tail)"
      using s [of "CHR ''-''" "nat (- n)"] by simp
    from True have "format_int n @ tail = CHR ''-'' # digits (nat (- n)) @ tail"
      by (simp add: format_int_def)
    with 1 2 show ?thesis
      unfolding number_shaped_def by (simp only: simp_thms)
  next
    case False
    then have "format_int n @ tail = digits (nat n) @ tail"
      by (simp add: format_int_def)
    with a [of "nat n"] s [of "CHR '' ''" "nat n"] show ?thesis
      unfolding number_shaped_def by (simp only: simp_thms)
  qed
qed

lemma format_int_not_plain: "\<not> plain_text (format_int n)"
  using digits_shaped [of "[]" n] by (simp add: plain_text_def)

lemma format_float_not_plain: "\<not> plain_text (format_int n @ ''.0'')"
  using digits_shaped [of "''.0''" n] by (simp add: plain_text_def)

lemma int_literal_chars: "int_literal s \<Longrightarrow> list_all (\<lambda>c. c \<in> set ''-0123456789'') s"
  by (cases s) (auto simp: int_literal_def list_all_iff split: if_splits)

lemma format_float_not_int: "\<not> int_literal (format_int n @ ''.0'')"
proof
  assume "int_literal (format_int n @ ''.0'')"
  from int_literal_chars [OF this] show False
    by simp
qed

lemma float_literal_format:
  "whole_float n \<Longrightarrow> float_literal (format_int n @ ''.0'') = Some n"
  by (simp add: float_literal_def format_int_literal)

lemma plain_text_not_na: "plain_text s \<Longrightarrow> \<not> na_value s"
  unfolding plain_text_def by (elim conjE)

lemma na_value_empty: "na_value []"
  by (simp add: na_value_def)

lemma float_literal_empty: "float_literal [] = None"
  by (simp add: float_literal_def int_literal_def)

text \<open>The loader reads a column back as it was written, whatever its dtype.\<close>

lemma infer_Int64:
  assumes "list_all (storable_cell Int64) cells"
  shows "infer_column (map (\<lambda>c. the (to_csv_field Int64 c)) cells) = Some cells"
proof (cases cells)
  case Nil
  then show ?thesis by (simp add: infer_column_def)
next
  case (Cons c cs)
  let ?W = "\<lambda>c. the (to_csv_field Int64 c)"
  have all: "\<exists>n. x = Num n \<and> in_int64 n \<and> ?W x = format_int n" if "x \<in> set cells" for x
    using assms that by (cases x) (auto simp: list_all_iff storable_cell_def to_csv_field_def)
  from all [of c] Cons obtain n where "c = Num n" and "?W c = format_int n"
    by auto
  then have 1: "\<not> list_all na_value (map ?W cells)"
    using Cons format_int_not_na by simp
  from \<open>?W c = format_int n\<close> have 2: "\<not> list_all (\<lambda>t. na_value t \<or> plain_text t) (map ?W cells)"
    using Cons format_int_not_na format_int_not_plain by simp
  have "int_literal (?W x) \<and> in_int64 (int_value (?W x)) \<and> Num (int_value (?W x)) = x"
    if "x \<in> set cells" for x
    using all [OF that] format_int_literal by auto
  then have 3: "list_all (\<lambda>t. int_literal t \<and> in_int64 (int_value t)) (map ?W cells)"
    and 4: "map (\<lambda>t. Num (int_value t)) (map ?W cells) = cells"
    by (simp_all add: list_all_iff map_idI)
  from 1 2 3 4 show ?thesis
    by (simp add: infer_column_def)
qed

lemma infer_Float64:
  assumes "list_all (storable_cell Float64) cells"
  shows "infer_column (map (\<lambda>c. the (to_csv_field Float64 c)) cells) = Some cells"
proof -
  let ?W = "\<lambda>c. the (to_csv_field Float64 c)"
  have all: "(x = NaN \<and> ?W x = []) \<or> (\<exists>n. x = Num n \<and> whole_float n \<and> ?W x = format_int n @ ''.0'')"
    if "x \<in> set cells" for x
    using assms that by (cases x) (auto simp: list_all_iff storable_cell_def to_csv_field_def)
  have na: "na_value (?W x) \<longleftrightarrow> x = NaN" if "x \<in> set cells" for x
    using all [OF that] format_float_not_na na_value_empty by auto
  have 1: "map (\<lambda>t. NaN) (map ?W cells) = cells" if "list_all na_value (map ?W cells)"
  proof -
    from that na have "\<forall>c \<in> set cells. c = NaN"
      by (simp add: list_all_iff)
    then show ?thesis
      by (auto intro!: map_idI)
  qed
  have number: "\<exists>x \<in> set cells. \<exists>n. ?W x = format_int n @ ''.0''"
    if "\<not> list_all na_value (map ?W cells)"
  proof -
    from that obtain x where x: "x \<in> set cells" and "\<not> na_value (?W x)"
      by (auto simp: list_all_iff)
    with na [OF x] all [OF x] show ?thesis
      by auto
  qed
  have 2: "\<not> list_all (\<lambda>t. na_value t \<or> plain_text t) (map ?W cells)"
    if h: "\<not> list_all na_value (map ?W cells)"
  proof -
    from number [OF h] obtain x n where x: "x \<in> set cells"
      and w: "?W x = format_int n @ ''.0''"
      by blast
    from w have "\<not> (na_value (?W x) \<or> plain_text (?W x))"
      using format_float_not_na format_float_not_plain by simp
    moreover from x have "?W x \<in> set (map ?W cells)"
      by simp
    ultimately show ?thesis
      unfolding list_all_iff by blast
  qed
  have 3: "\<not> list_all (\<lambda>t. int_literal t \<and> in_int64 (int_value t)) (map ?W cells)"
    if h: "\<not> list_all na_value (map ?W cells)"
  proof -
    from number [OF h] obtain x n where x: "x \<in> set cells"
      and w: "?W x = format_int n @ ''.0''"
      by blast
    from w have "\<not> int_literal (?W x)"
      using format_float_not_int by simp
    moreover from x have "?W x \<in> set (map ?W cells)"
      by simp
    ultimately show ?thesis
      unfolding list_all_iff by blast
  qed
  have "(na_value (?W x) \<or> float_literal (?W x) \<noteq> None) \<and>
        (case float_literal (?W x) of None \<Rightarrow> NaN | Some n \<Rightarrow> Num n) = x"
    if "x \<in> set cells" for x
    using all [OF that] float_literal_format float_literal_empty na_value_empty by auto
  then have 4: "list_all (\<lambda>t. na_value t \<or> float_literal t \<noteq> None) (map ?W cells)"
    and 5: "map (\<lambda>t. case float_literal t of None \<Rightarrow> NaN | Some n \<Rightarrow> Num n) (map ?W cells) = cells"
    by (simp_all add: list_all_iff map_idI)
  show ?thesis
  proof (cases "list_all na_value (map ?W cells)")
    case True
    then show ?thesis
      unfolding infer_column_def by (simp only: if_True 1 [OF True])
  next
    case False
    show ?thesis
      unfolding infer_column_def
      by (simp only: False 2 [OF False] 3 [OF False] 4 5 if_True if_False)
  qed
qed

lemma infer_Object:
  assumes "list_all (storable_cell Object) cells"
  shows "infer_column (map (\<lambda>c. the (to_csv_field Object c)) cells) = Some cells"
proof -
  let ?W = "\<lambda>c. the (to_csv_field Object c)"
  have all: "(c = NaN \<and> ?W c = []) \<or> (\<exists>s. c = Str s \<and> plain_text s \<and> ?W c = s)"
    if "c \<in> set cells" for c
    using assms that by (cases c) (auto simp: list_all_iff storable_cell_def to_csv_field_def)
  have na: "na_value (?W c) \<longleftrightarrow> c = NaN" if "c \<in> set cells" for c
    using all [OF that] plain_text_not_na na_value_empty by auto
  have pl: "na_value (?W c) \<or> plain_text (?W c)" if "c \<in> set cells" for c
    using all [OF that] na_value_empty by auto
  have 2: "list_all (\<lambda>t. na_value t \<or> plain_text t) (map ?W cells)"
    using pl by (simp add: list_all_iff)
  have "(if na_value (?W c) then NaN else Str (?W c)) = c" if "c \<in> set cells" for c
    using all [OF that] na [OF that] by auto
  then have 3: "map (\<lambda>t. if na_value t then NaN else Str t) (map ?W cells) = cells"
    by (simp add: map_idI)
  have 4: "map (\<lambda>t. NaN) (map ?W cells) = cells" if "list_all na_value (map ?W cells)"
  proof -
    from that na have "\<forall>c \<in> set cells. c = NaN"
      by (simp add: list_all_iff)
    then show ?thesis
      by (auto intro!: map_idI)
  qed
  from 2 3 4 show ?thesis
    by (simp add: infer_column_def)
qed

lemma infer_storable:
  "list_all (storable_cell t) cells \<Longrightarrow>
     infer_column (map (\<lambda>c. the (to_csv_field t c)) cells) = Some cells"
  using infer_Int64 infer_Float64 infer_Object by (cases t) simp_all

lemma field_storable: "storable_cell t c \<Longrightarrow> to_csv_field t c = Some (the (to_csv_field t c))"
  by (cases t; cases c) (simp_all add: storable_cell_def to_csv_field_def)

lemma those_map_Some:
  "(\<And>x. x \<in> set xs \<Longrightarrow> f x = Some (g x)) \<Longrightarrow> those (map f xs) = Some (map g xs)"
  by (induction xs) simp_all

lemma storable_facts:
  assumes "storable ts d"
  shows "length ts = length (cols d)"
    and "\<forall>r \<in> set (rows d). length r = length (cols d)"
    and "\<forall>r \<in> set (rows d). \<forall>j < length (cols d). storable_cell (ts ! j) (r ! j)"
    and "distinct (cols d)" and "[] \<notin> set (cols d)" and "1 < length (cols d)"
proof -
  from assms show n: "length ts = length (cols d)"
    and len: "\<forall>r \<in> set (rows d). length r = length (cols d)"
    by (simp_all add: storable_def list_all_iff)
  from assms have "cols d = output_labels \<or> cols d = output_labels @ [''fn_length'']"
    by (simp add: storable_def)
  then show "distinct (cols d)" and "[] \<notin> set (cols d)" and "1 < length (cols d)"
    by (auto simp: output_labels_def)
  show "\<forall>r \<in> set (rows d). \<forall>j < length (cols d). storable_cell (ts ! j) (r ! j)"
  proof (intro ballI allI impI)
    fix r j assume r: "r \<in> set (rows d)" and j: "j < length (cols d)"
    from assms r have "\<forall>(t, c) \<in> set (zip ts r). storable_cell t c"
      by (simp add: storable_def list_all_iff)
    moreover from n len r j have "(ts ! j, r ! j) \<in> set (zip ts r)"
      by (auto simp: set_zip)
    ultimately show "storable_cell (ts ! j) (r ! j)"
      by blast
  qed
qed

lemma to_csv_storable:
  assumes "storable ts d"
  shows "to_csv ts d =
           Some (cols d # map (\<lambda>r. map (\<lambda>(t, c). the (to_csv_field t c)) (zip ts r)) (rows d))"
proof -
  let ?n = "length (cols d)"
  note f = storable_facts [OF assms]
  have "those (map (\<lambda>(t, c). to_csv_field t c) (zip ts (pad ?n r)))
          = Some (map (\<lambda>(t, c). the (to_csv_field t c)) (zip ts r))"
    if r: "r \<in> set (rows d)" for r
  proof -
    from f(2) r have p: "pad ?n r = r"
      by (simp add: pad_id)
    have "(case x of (t, c) \<Rightarrow> to_csv_field t c)
            = Some (case x of (t, c) \<Rightarrow> the (to_csv_field t c))"
      if "x \<in> set (zip ts r)" for x
    proof -
      from assms r that have "case x of (t, c) \<Rightarrow> storable_cell t c"
        by (auto simp: storable_def list_all_iff)
      then show ?thesis
        using field_storable by (cases x) simp
    qed
    then show ?thesis
      unfolding p by (rule those_map_Some)
  qed
  then have "those (map (\<lambda>r. those (map (\<lambda>(t, c). to_csv_field t c) (zip ts (pad ?n r))))
               (rows d))
             = Some (map (\<lambda>r. map (\<lambda>(t, c). the (to_csv_field t c)) (zip ts r)) (rows d))"
    by (rule those_map_Some)
  with f(1) show ?thesis
    by (simp add: to_csv_def)
qed

lemma read_csv_storable:
  assumes "storable ts d"
  shows "read_csv (cols d # map (\<lambda>r. map (\<lambda>(t, c). the (to_csv_field t c)) (zip ts r)) (rows d))
           = Some (Inr d)"
proof -
  let ?n = "length (cols d)"
  let ?line = "\<lambda>r. map (\<lambda>(t, c). the (to_csv_field t c)) (zip ts r)"
  let ?lines = "map ?line (rows d)"
  note f = storable_facts [OF assms]
  have ll: "length (?line r) = ?n" if "r \<in> set (rows d)" for r
    using f(1,2) that by simp
  have nb: "\<not> blank_line l" if "1 < length l" for l
    using that by (cases l) (auto simp: blank_line_def)
  have ne: "filter (\<lambda>l. \<not> blank_line l) (cols d # ?lines) = cols d # ?lines"
    using f(6) ll nb by (auto simp: filter_id_conv)
  have short: "\<not> list_ex (\<lambda>l. ?n < length l) ?lines"
    using ll by (auto simp: list_ex_iff)
  have column: "infer_column (map (\<lambda>l. field_at l j) ?lines) = Some (map (\<lambda>r. r ! j) (rows d))"
    if "j \<in> set [0 ..< ?n]" for j
  proof -
    from that have j: "j < ?n" by simp
    have "field_at (?line r) j = the (to_csv_field (ts ! j) (r ! j))" if "r \<in> set (rows d)" for r
      using f(1,2) j that by (simp add: field_at_def)
    then have eq: "map (\<lambda>l. field_at l j) ?lines
                   = map (\<lambda>c. the (to_csv_field (ts ! j) c)) (map (\<lambda>r. r ! j) (rows d))"
      by simp
    have "list_all (storable_cell (ts ! j)) (map (\<lambda>r. r ! j) (rows d))"
      using f(3) j by (simp add: list_all_iff)
    then show ?thesis
      unfolding eq by (rule infer_storable)
  qed
  have "those (map (\<lambda>j. infer_column (map (\<lambda>l. field_at l j) ?lines)) [0 ..< ?n])
          = Some (map (\<lambda>j. map (\<lambda>r. r ! j) (rows d)) [0 ..< ?n])"
    by (rule those_map_Some) (rule column)
  moreover have "map (\<lambda>i. map (\<lambda>c. c ! i) (map (\<lambda>j. map (\<lambda>r. r ! j) (rows d)) [0 ..< ?n]))
                   [0 ..< length ?lines] = rows d"
    using f(2) by (auto intro!: nth_equalityI)
  ultimately show ?thesis
    using f(4,5) short unfolding read_csv_def ne by simp
qed

lemma index_of_nth: "distinct xs \<Longrightarrow> i < length xs \<Longrightarrow> index_of (xs ! i) xs = i"
proof (induction xs arbitrary: i)
  case Nil
  then show ?case by simp
next
  case (Cons x xs)
  then show ?case by (cases i) auto
qed

lemma getitem_cols_all:
  assumes "distinct (cols d)" and "\<forall>r \<in> set (rows d). length r = length (cols d)"
  shows "getitem_cols d (cols d) = Inr d"
proof -
  have "map (\<lambda>n. cell_at r (index_of n (cols d))) (cols d) = r" if "r \<in> set (rows d)" for r
    using assms that by (auto intro!: nth_equalityI simp: index_of_nth cell_at_def)
  then have "map (\<lambda>r. map (\<lambda>n. cell_at r (index_of n (cols d))) (cols d)) (rows d) = rows d"
    by (auto intro!: map_idI)
  moreover have "find (\<lambda>n. n \<notin> set (cols d)) (cols d) = None"
    by (simp add: find_None_iff)
  ultimately show ?thesis
    by (simp add: getitem_cols_def)
qed

lemmas tsv_defs = round_trip_def loadTable_def read_csv_def blank_line_def to_csv_def
  to_csv_field_def infer_column_def float_literal_def whole_float_def
  field_at_def na_value_def plain_text_def number_shaped_def reserved_word_def same_word_def
  control_characters_def int_literal_def
  int_value_def nat_value_def digit_value_def in_int64_def format_int_def digits.simps
  pad_def cell_at_def getitem_cols_def

lemmas storable_defs = storable_def storable_cell_def output_labels_def
  plain_text_def number_shaped_def reserved_word_def same_word_def control_characters_def
  na_value_def in_int64_def whole_float_def

lemma storable_fn_stored: "storable fn_dtypes fn_stored"
  by (simp add: storable_defs fn_dtypes_def fn_stored_def)

lemma storable_fn_stored_with_length: "storable (fn_dtypes @ [Int64]) fn_stored_with_length"
  by (simp add: storable_defs fn_dtypes_def fn_stored_with_length_def)

lemma add_fn_length_stored: "add_fn_length fn_stored = Inr fn_stored_with_length"
  by (simp add: add_fn_length_def fn_stored_def fn_stored_with_length_def
        getitem_row_def setitem_def cell_at_def pad_def regex_defs)

lemma to_csv_fn_stored:
  "to_csv fn_dtypes fn_stored =
     Some [[''adsh'', ''cik'', ''name'', ''sic'', ''form'', ''period'', ''filed'',
            ''tag'', ''qtrs'', ''ddate'', ''value''],
           [''0000002178-21-000005'', ''2178'', ''ADAMS RESOURCES & ENERGY, INC.'',
            ''5172.0'', ''10-K'', ''20201231.0'', ''20210305'',
            ''SignificantAccountingPoliciesTextBlock'', ''4'', ''20201231'',
            ''Summary of 'Significant' Policies  ''],
           [''0001104659-21-003503'', ''1750'', '''', '''', ''10-K/A'', '''', ''20210112'',
            ''SignificantAccountingPoliciesTextBlock'', ''0'', ''20200531'',
            ''No change since 2019.'']]"
  by (simp add: to_csv_def to_csv_field_def whole_float_def in_int64_def format_int_def
        digits.simps pad_def cell_at_def fn_dtypes_def fn_stored_def)

lemma round_trip_digit_text:
  "round_trip fn_dtypes fn_digit_text = Some (Inr fn_digit_text_loaded)"
  by (simp add: tsv_defs fn_dtypes_def fn_digit_text_def fn_digit_text_loaded_def)

lemma round_trip_na_text:
  "round_trip fn_dtypes fn_na_text = Some (Inr fn_na_text_loaded)"
  by (simp add: tsv_defs fn_dtypes_def fn_na_text_def fn_na_text_loaded_def)

section \<open>The claims\<close>

subsection \<open>The filter, merge, filter pipeline\<close>

text \<open>
  C1. Whatever the two loaded tables and the two allow-lists are, every row of the table
  the pipeline returns has its \<^verbatim>\<open>form\<close> cell among the form types and its \<^verbatim>\<open>tag\<close> cell
  among the tags.
\<close>

theorem filter_correctness:
  assumes "df_fn P forms tags sub txt = Inr out"
  shows "\<forall>row \<in> set (rows out).
           getitem_row out row ''form'' \<in> Inr ` set forms \<and>
           getitem_row out row ''tag'' \<in> Inr ` set tags"
proof
  fix row assume row: "row \<in> set (rows out)"
  from df_fn_Inr [OF assms] obtain s t where s: "df_sub sub = Inr s"
    and t: "df_txt txt = Inr t"
    and out: "out = \<lparr>cols = [''adsh'', ''cik'', ''name'', ''sic'', ''form'', ''period'', ''filed'',
                            ''tag'', ''qtrs'', ''ddate'', ''value''],
                    rows = step_C tags
                             (inner_join (inner_order P) (\<lambda>a. cell_at a 0) (\<lambda>b. cell_at b 0)
                                (\<lambda>a b. a @ tl b) (step_A forms (rows s)) (rows t))\<rparr>"
    by blast
  from row out have tag: "cell_at row 7 \<in> set tags"
    and "row \<in> set (inner_join (inner_order P) (\<lambda>a. cell_at a 0) (\<lambda>b. cell_at b 0)
                      (\<lambda>a b. a @ tl b) (step_A forms (rows s)) (rows t))"
    by (simp_all add: step_C_def)
  then obtain a b where a: "a \<in> set (rows s)" and fa: "cell_at a 4 \<in> set forms"
    and ab: "row = a @ tl b"
    unfolding set_inner_join by (auto simp: step_A_def)
  have "length a = 7"
    using df_sub_Inr(2) [OF s] a by blast
  then have "cell_at row 4 = cell_at a 4"
    by (simp add: ab cell_at_joined)
  with fa tag show "getitem_row out row ''form'' \<in> Inr ` set forms \<and>
           getitem_row out row ''tag'' \<in> Inr ` set tags"
    by (simp add: getitem_row_def out eval_nat_numeral)
qed

theorem filter_correctness_witness:
  "df_fn keys_grouped form_types footnote_tags sub_example txt_example = Inr fn_example \<and>
   row_example \<in> set (rows fn_example) \<and>
   getitem_row fn_example row_example ''form'' \<in> Inr ` set form_types \<and>
   getitem_row fn_example row_example ''tag'' \<in> Inr ` set footnote_tags"
proof -
  have h: "df_fn keys_grouped form_types footnote_tags sub_example txt_example = Inr fn_example"
    by (rule df_fn_example)
  have m: "row_example \<in> set (rows fn_example)"
    by (simp add: fn_example_def)
  from filter_correctness [OF h] m h show ?thesis
    by blast
qed

text \<open>
  C2. The submissions table has unique accession keys, as the data model of the
  specification has it. Then, when the merge goes through, the merged table has as many
  rows as there are observation rows whose key is among the keys of the retained
  submissions: no row is made up and none is dropped.
\<close>

theorem join_cardinality_unique_keys:
  assumes "join_cardinality P forms sub txt = Inr n"
    and "distinct (accessions sub)"
  shows "matching_observations forms sub txt = Inr n"
proof -
  from assms(1) obtain j where j: "df_txt_filtered P forms sub txt = Inr j"
    and n: "n = length (rows j)"
    by (auto simp: join_cardinality_def split: sum.splits)
  from df_txt_filtered_Inr [OF j] obtain s t where s: "df_sub sub = Inr s"
    and t: "df_txt txt = Inr t"
    and rj: "rows j = inner_join (inner_order P) (\<lambda>a. cell_at a 0) (\<lambda>b. cell_at b 0)
                        (\<lambda>a b. a @ tl b) (step_A forms (rows s)) (rows t)"
    by auto
  have d: "distinct (map (\<lambda>a. cell_at a 0) (step_A forms (rows s)))"
    by (rule retained_distinct [OF s assms(2)])
  have "rows j = step_B (step_A forms (rows s)) (rows t)"
    unfolding rj step_B_inner_join by (rule inner_join_distinct [OF d])
  then have "n = length (filter (\<lambda>b. cell_at b 0
                 \<in> set (map (\<lambda>a. cell_at a 0) (step_A forms (rows s)))) (rows t))"
    using n length_step_B [OF d] by simp
  moreover have "getitem t ''adsh'' = Inr (map (\<lambda>b. cell_at b 0) (rows t))"
    using df_txt_Inr(1) [OF t] by (simp add: getitem_def)
  ultimately show ?thesis
    using t accessions_Inr(2) [OF s, of forms] df_sub_filtered_total [OF s, of forms]
    by (simp add: matching_observations_def filter_map comp_def)
qed

theorem join_cardinality_unique_keys_witness:
  "join_cardinality keys_grouped form_types sub_ordered txt_ordered = Inr 5 \<and>
   distinct (accessions sub_ordered) \<and>
   matching_observations form_types sub_ordered txt_ordered = Inr 5"
proof -
  have d: "distinct (accessions sub_ordered)"
    by (simp add: accessions_ordered)
  from join_cardinality_unique_keys [OF join_cardinality_ordered d] join_cardinality_ordered d
  show ?thesis
    by blast
qed

text \<open>
  C6. The submissions table has unique accession keys, as the data model of the
  specification has it. Then the rows of the returned table are a function of the two
  tables and the two lists, under either order in which pandas lays out the joined rows:
  the retained submissions in the order of the submissions table, each followed through
  its matching observations in the order of the observations table; step by step as the
  specification words it, and in one pass over the pairs of a submission and an
  observation. Nothing is sorted and nothing is merged: every matching pair of positions
  gives a row of its own, so an observation row that occurs twice is returned twice.
\<close>

theorem output_order:
  assumes "df_sub sub = Inr s" and "df_txt txt = Inr t"
    and "df_fn P forms tags sub txt = Inr out"
    and "distinct (accessions sub)"
  shows "rows out = buildFootnoteTable forms tags (rows s) (rows t) \<and>
         rows out = map (\<lambda>(a, b). a @ tl b)
           (filter (\<lambda>(a, b). cell_at a 4 \<in> set forms \<and> cell_at b 0 = cell_at a 0
                              \<and> cell_at b 1 \<in> set tags)
              (List.product (rows s) (rows t)))"
proof -
  from df_fn_Inr [OF assms(3)] assms(1,2)
  have "rows out = step_C tags
          (inner_join (inner_order P) (\<lambda>a. cell_at a 0) (\<lambda>b. cell_at b 0)
             (\<lambda>a b. a @ tl b) (step_A forms (rows s)) (rows t))"
    by auto
  also have "inner_join (inner_order P) (\<lambda>a. cell_at a 0) (\<lambda>b. cell_at b 0)
               (\<lambda>a b. a @ tl b) (step_A forms (rows s)) (rows t)
             = step_B (step_A forms (rows s)) (rows t)"
    unfolding step_B_inner_join
    by (rule inner_join_distinct [OF retained_distinct [OF assms(1,4)]])
  finally have "rows out = buildFootnoteTable forms tags (rows s) (rows t)"
    by (simp add: buildFootnoteTable_def)
  with buildFootnoteTable_product [OF df_sub_Inr(2) [OF assms(1)], of forms tags "rows t"]
  show ?thesis
    by simp
qed

theorem output_order_witness:
  "df_sub sub_ordered = Inr sub_ordered \<and>
   df_txt txt_ordered = Inr txt_ordered \<and>
   distinct (accessions sub_ordered) \<and>
   df_fn keys_grouped form_types footnote_tags sub_ordered txt_ordered = Inr fn_ordered \<and>
   df_fn left_rows form_types footnote_tags sub_ordered txt_ordered = Inr fn_ordered \<and>
   rows fn_ordered
     = buildFootnoteTable form_types footnote_tags (rows sub_ordered) (rows txt_ordered) \<and>
   rows fn_ordered = rows_ordered"
proof -
  have d: "distinct (accessions sub_ordered)"
    by (simp add: accessions_ordered)
  have r: "rows fn_ordered = rows_ordered"
    by (simp add: fn_ordered_def)
  from output_order [OF df_sub_ordered df_txt_ordered df_fn_ordered_grouped d]
    df_sub_ordered df_txt_ordered df_fn_ordered_grouped df_fn_ordered_left d r
  show ?thesis by blast
qed

text \<open>
  C10. The merged table and the returned table have the seven submission labels
  followed by \<^verbatim>\<open>tag\<close>, \<^verbatim>\<open>qtrs\<close>, \<^verbatim>\<open>ddate\<close>, \<^verbatim>\<open>value\<close>, with \<^verbatim>\<open>adsh\<close> once, and the
  table with the word count, when the cell that adds it goes through, has \<^verbatim>\<open>fn_length\<close>
  behind them.
\<close>

theorem output_columns:
  assumes "df_fn P forms tags sub txt = Inr out"
  shows "(\<exists>j. df_txt_filtered P forms sub txt = Inr j \<and> cols j = cols out) \<and>
         cols out = [''adsh'', ''cik'', ''name'', ''sic'', ''form'', ''period'', ''filed'',
                     ''tag'', ''qtrs'', ''ddate'', ''value''] \<and>
         count_list (cols out) ''adsh'' = 1 \<and>
         (\<forall>out'. add_fn_length out = Inr out' \<longrightarrow>
            cols out' = [''adsh'', ''cik'', ''name'', ''sic'', ''form'', ''period'', ''filed'',
                         ''tag'', ''qtrs'', ''ddate'', ''value'', ''fn_length''])"
proof -
  from assms obtain j where j: "df_txt_filtered P forms sub txt = Inr j"
    by (auto simp: df_fn_def split: sum.splits)
  from df_txt_filtered_Inr [OF j]
  have cj: "cols j = [''adsh'', ''cik'', ''name'', ''sic'', ''form'', ''period'', ''filed'',
                      ''tag'', ''qtrs'', ''ddate'', ''value'']"
    by auto
  from df_fn_Inr [OF assms]
  have out: "cols out = [''adsh'', ''cik'', ''name'', ''sic'', ''form'', ''period'', ''filed'',
                         ''tag'', ''qtrs'', ''ddate'', ''value'']"
    by auto
  then have "''fn_length'' \<notin> set (cols out)"
    by simp
  then have "\<forall>out'. add_fn_length out = Inr out' \<longrightarrow> cols out' = cols out @ [''fn_length'']"
    using add_fn_length_cols by blast
  with j cj out show ?thesis
    by simp
qed

theorem output_columns_witness:
  "df_fn keys_grouped form_types footnote_tags sub_example txt_example = Inr fn_example \<and>
   add_fn_length fn_example = Inr fn_with_length \<and>
   cols fn_example = [''adsh'', ''cik'', ''name'', ''sic'', ''form'', ''period'', ''filed'',
                      ''tag'', ''qtrs'', ''ddate'', ''value''] \<and>
   cols fn_with_length = [''adsh'', ''cik'', ''name'', ''sic'', ''form'', ''period'', ''filed'',
                          ''tag'', ''qtrs'', ''ddate'', ''value'', ''fn_length'']"
  using output_columns [OF df_fn_example] df_fn_example add_fn_length_example
  by blast

subsection \<open>The word counter\<close>

text \<open>
  C3, as amended. The word counter gives 0 on the empty text, 2 on
  \<^verbatim>\<open>state-of-the-art solution\<close>, whose first word holds its hyphens, and 3 on
  \<^verbatim>\<open>the company's plan\<close>.
\<close>

theorem count_words_vectors:
  "count_words (Str '''') = Inr 0 \<and>
   count_words (Str ''state-of-the-art solution'') = Inr 2 \<and>
   count_words (Str ''the company's plan'') = Inr 3 \<and>
   findall None ''state-of-the-art solution'' = [''state-of-the-art'', ''solution''] \<and>
   findall None ''the company's plan'' = [''the'', ''company's'', ''plan'']"
  by (simp add: regex_defs)

text \<open>C3 as the specification states it fails at its second vector.\<close>

theorem count_words_counterexample:
  "count_words (Str ''state-of-the-art solution'') \<noteq> Inr 3"
  by (simp add: regex_defs)

text \<open>
  C8. The word counter returns a count, which is not negative, on every string and
  raises on every other value; and the cell that applies it to every row raises
  TypeError as soon as one row of the table has no string under \<^verbatim>\<open>value\<close>.
\<close>

theorem count_words_strings_only:
  "(\<exists>n. count_words (Str s) = Inr n \<and> 0 \<le> n) \<and>
   ((\<forall>s. v \<noteq> Str s) \<longrightarrow> count_words v = Inl TypeError) \<and>
   (''value'' \<in> set (cols d) \<and>
      (\<exists>row \<in> set (rows d). \<forall>s. getitem_row d row ''value'' \<noteq> Inr (Str s))
      \<longrightarrow> add_fn_length d = Inl TypeError)"
proof (intro conjI impI)
  show "\<exists>n. count_words (Str s) = Inr n \<and> 0 \<le> n"
    by (simp add: count_words_def)
next
  assume "\<forall>s. v \<noteq> Str s"
  then show "count_words v = Inl TypeError"
    by (cases v) (simp_all add: count_words_def)
next
  let ?f = "\<lambda>row. case getitem_row d row ''value'' of Inl e \<Rightarrow> Inl e | Inr v \<Rightarrow> count_words v"
  assume a: "''value'' \<in> set (cols d) \<and>
    (\<exists>row \<in> set (rows d). \<forall>s. getitem_row d row ''value'' \<noteq> Inr (Str s))"
  then have ne: "rows d \<noteq> []" by auto
  have 1: "\<forall>r \<in> set (rows d). ?f r = Inl TypeError \<or> (\<exists>n. ?f r = Inr n)"
    using a count_words_cases by (simp add: getitem_row_def)
  from a obtain row where row: "row \<in> set (rows d)"
    and ns: "\<forall>s. getitem_row d row ''value'' \<noteq> Inr (Str s)"
    by blast
  have "?f row = Inl TypeError"
  proof (cases "cell_at row (index_of ''value'' (cols d))")
    case (Str s)
    with ns a show ?thesis by (simp add: getitem_row_def)
  qed (use a in \<open>simp_all add: getitem_row_def count_words_def\<close>)
  with row have 2: "\<exists>r \<in> set (rows d). ?f r = Inl TypeError" by blast
  from apply_rows_TypeError [of "rows d" ?f, OF 1 2] ne
  show "add_fn_length d = Inl TypeError"
    by (simp add: add_fn_length_def)
qed

theorem count_words_strings_only_witness:
  "count_words (Str ''the company's plan'') = Inr 3 \<and>
   count_words NaN = Inl TypeError \<and>
   add_fn_length fn_missing_value = Inl TypeError"
proof -
  have 1: "count_words (Str ''the company's plan'') = Inr 3"
    by (simp add: regex_defs)
  have 2: "\<forall>s. NaN \<noteq> Str s"
    by simp
  have 3: "''value'' \<in> set (cols fn_missing_value) \<and>
    (\<exists>row \<in> set (rows fn_missing_value).
        \<forall>s. getitem_row fn_missing_value row ''value'' \<noteq> Inr (Str s))"
    by (simp add: fn_missing_value_def getitem_row_def cell_at_def)
  from count_words_strings_only [of "''the company's plan''" NaN fn_missing_value] 1 2 3
  show ?thesis by blast
qed

subsection \<open>The fetcher\<close>

text \<open>
  C4, as amended. When the archive is not on disk and the server answers the request
  with a status other than 200, the call makes that one request, writes and extracts
  nothing, raises nothing and returns \<^verbatim>\<open>None\<close>.
\<close>

theorem download_other_status:
  assumes "\<not> path_exists w (path_join (working_folder E) (filename year month))"
    and "server E (length (requests w)) (url year month) = Http status_code raw"
    and "status_code \<noteq> 200"
  shows "download_xbrl_fin_notes E year month w
           = (Inr (), w\<lparr>requests := requests w @ [url year month]\<rparr>)"
  using assms by (simp add: download_xbrl_fin_notes_def Let_def)

theorem download_other_status_witness:
  "\<not> path_exists world_empty (path_join (working_folder env_404) (filename 2021 1)) \<and>
   server env_404 (length (requests world_empty)) (url 2021 1) = Http 404 ''Not Found'' \<and>
   (404::nat) \<noteq> 200 \<and>
   download_xbrl_fin_notes env_404 2021 1 world_empty
     = (Inr (), world_empty\<lparr>requests := requests world_empty @ [url 2021 1]\<rparr>)"
proof -
  have 1: "\<not> path_exists world_empty (path_join (working_folder env_404) (filename 2021 1))"
    by (simp add: fetch_defs env_404_def world_empty_def)
  have 2: "server env_404 (length (requests world_empty)) (url 2021 1) = Http 404 ''Not Found''"
    by (simp add: env_404_def)
  have 3: "(404::nat) \<noteq> 200"
    by simp
  from download_other_status [OF 1 2 3] 1 2 3 show ?thesis
    by blast
qed

text \<open>
  C4 as the specification states it fails: with nothing in the working folder and a
  server that answers 404, the call for January 2021 ends without an exception.
\<close>

theorem download_other_status_counterexample:
  "fst (download_xbrl_fin_notes env_404 2021 1 world_empty) = Inr ()"
  by (simp add: fetch_defs env_404_def world_empty_def)




text \<open>
  C9. The guard looks at the archive path alone. When that path exists the call returns
  at once: no request, no file written, nothing extracted, and the extraction folder is
  there afterwards exactly when it was there before.
\<close>

theorem existing_archive_no_effect:
  assumes "path_exists w (path_join (working_folder E) (filename year month))"
  shows "download_xbrl_fin_notes E year month w = (Inr (), w) \<and>
         requests (snd (download_xbrl_fin_notes E year month w)) = requests w \<and>
         files (snd (download_xbrl_fin_notes E year month w)) = files w \<and>
         dirs (snd (download_xbrl_fin_notes E year month w)) = dirs w \<and>
         path_exists (snd (download_xbrl_fin_notes E year month w))
             (path_join (working_folder E) (stem (filename year month)))
           = path_exists w (path_join (working_folder E) (stem (filename year month)))"
  using download_existing [OF assms] by simp

theorem existing_archive_no_effect_witness:
  "path_exists world_archive_only (path_join (working_folder env_200) (filename 2021 1)) \<and>
   download_xbrl_fin_notes env_200 2021 1 world_archive_only = (Inr (), world_archive_only) \<and>
   requests (snd (download_xbrl_fin_notes env_200 2021 1 world_archive_only)) = [] \<and>
   \<not> path_exists (snd (download_xbrl_fin_notes env_200 2021 1 world_archive_only))
       (path_join (working_folder env_200) (stem (filename 2021 1)))"
proof -
  have 1: "path_exists world_archive_only (path_join (working_folder env_200) (filename 2021 1))"
    by (simp add: fetch_defs env_200_def world_archive_only_def)
  have 2: "\<not> path_exists world_archive_only
              (path_join (working_folder env_200) (stem (filename 2021 1)))"
    by (simp add: fetch_defs env_200_def world_archive_only_def)
  from existing_archive_no_effect [OF 1] 1 2 show ?thesis
    by (simp add: world_archive_only_def)
qed

subsection \<open>The writer and the loader\<close>

text \<open>
  C7, as amended. An output table, with or without the word count, whose columns of
  integers hold 64-bit integers, whose floating-point columns hold missing values and
  whole numbers below sixteen digits, and whose columns of objects hold missing values
  and plain texts, comes back from the writer and the loader, projected to its own
  columns, row for row as it was written (a missing value for a missing value, a whole
  floating-point number for the number it equals).
\<close>

theorem round_trip_storable:
  assumes "storable ts d"
  shows "round_trip ts d = Some (Inr d)"
proof -
  note f = storable_facts [OF assms]
  from f(4) f(2) have "getitem_cols d (cols d) = Inr d"
    by (rule getitem_cols_all)
  with to_csv_storable [OF assms] read_csv_storable [OF assms] show ?thesis
    by (simp add: round_trip_def loadTable_def)
qed

theorem round_trip_storable_witness:
  "storable fn_dtypes fn_stored \<and>
   round_trip fn_dtypes fn_stored = Some (Inr fn_stored) \<and>
   storable (fn_dtypes @ [Int64]) fn_stored_with_length \<and>
   round_trip (fn_dtypes @ [Int64]) fn_stored_with_length = Some (Inr fn_stored_with_length)"
  using round_trip_storable [OF storable_fn_stored] storable_fn_stored
    round_trip_storable [OF storable_fn_stored_with_length] storable_fn_stored_with_length
  by blast

text \<open>
  C7 as the specification states it, for every sequence of output records, fails: a
  footnote text of digits alone in its column is loaded as the number it spells, and
  a footnote text that is one of the loader's words for a missing value is loaded as a
  missing value.
\<close>

theorem round_trip_counterexample:
  "round_trip fn_dtypes fn_digit_text \<noteq> Some (Inr fn_digit_text) \<and>
   round_trip fn_dtypes fn_na_text \<noteq> Some (Inr fn_na_text)"
proof -
  have "fn_digit_text_loaded \<noteq> fn_digit_text"
    by (simp add: fn_digit_text_def fn_digit_text_loaded_def)
  moreover have "fn_na_text_loaded \<noteq> fn_na_text"
    by (simp add: fn_na_text_def fn_na_text_loaded_def)
  ultimately show ?thesis
    by (simp add: round_trip_digit_text round_trip_na_text)
qed

end
